theory Spec2Isabelle
  imports Complex_Main "HOL-Library.AList"
begin

section \<open>Common data\<close>

text \<open>
  Values stored by the context manager are JSON-serializable Python values. Python's
  \<open>None\<close> is \<open>JNull\<close>; a dict is an association list in insertion order, which is
  the order Python dicts and orjson keep.
\<close>

datatype jvalue =
    JNull
  | JBool bool
  | JInt int
  | JFloat real
  | JStr string
  | JArr "jvalue list"
  | JObj "(string \<times> jvalue) list"

text \<open>The exceptions the modelled code can raise.\<close>

datatype py_error =
    ValidationError
  | TypeError
  | AttributeError
  | KeyError
  | ValueError
  | FileNotFoundError
  | OverflowError
  | OperationFailed

text \<open>
  What awaiting a coroutine gives: a value, an exception, or nothing at all when the
  coroutine waits for a lock that is never released.
\<close>

datatype 'a outcome = Returns 'a | Raises py_error | Blocks

text \<open>
  A Python dict is an association list with distinct keys: \<open>d[k] = v\<close> is
  \<open>AList.update\<close> (in place for a known key, appended for a new one),
  \<open>del d[k]\<close> is \<open>AList.delete\<close>, \<open>k in d\<close> is \<open>has_key\<close>.
\<close>

definition has_key :: "('k \<times> 'v) list \<Rightarrow> 'k \<Rightarrow> bool" where
  "has_key d k = (map_of d k \<noteq> None)"

section \<open>Context manager (app/core/context_manager.py)\<close>

subsection \<open>State\<close>

text \<open>The pydantic model \<open>ContextItem\<close>: \<open>ttl\<close> is \<open>Optional[int]\<close> with \<open>ge=1\<close>.\<close>

record context_item =
  ci_key :: string
  ci_value :: jvalue
  ci_ttl :: "int option"
  ci_metadata :: "(string \<times> jvalue) list"

definition ContextItem :: "string \<Rightarrow> jvalue \<Rightarrow> int option \<Rightarrow> (string \<times> jvalue) list
    \<Rightarrow> py_error + context_item" where
  "ContextItem key v ttl metadata =
     (case ttl of
        None \<Rightarrow> Inr \<lparr>ci_key = key, ci_value = v, ci_ttl = None, ci_metadata = metadata\<rparr>
      | Some t \<Rightarrow>
          if t \<ge> 1
          then Inr \<lparr>ci_key = key, ci_value = v, ci_ttl = Some t, ci_metadata = metadata\<rparr>
          else Inl ValidationError)"

text \<open>An entry of \<open>_context_store\<close>: the dict with the four keys \<open>set_context\<close> writes.\<close>

record stored_item =
  item_value :: jvalue
  item_metadata :: "(string \<times> jvalue) list"
  created_at :: real
  updated_at :: real

text \<open>The payload of an event handed to \<open>_notify_subscribers\<close>.\<close>

datatype cm_event =
    SetEvent string jvalue "(string \<times> jvalue) list option"
  | DeleteEvent string jvalue
  | BulkUpdateEvent nat nat

text \<open>
  The constructor's parameters, and the two pieces of the platform the manager
  computes with: \<open>round64\<close> is the rounding of a real number to the nearest
  binary64 value, \<open>orjson_roundtrip\<close> gives for a document what \<open>orjson.loads\<close> reads
  from what \<open>orjson.dumps\<close> writes for it, and \<open>None\<close> where \<open>orjson.dumps\<close> raises (as
  it does for an \<open>int\<close> outside 64 bits).
\<close>

record cm_config =
  cache_ttl :: int
  max_cache_size :: int
  enable_persistence :: bool
  round64 :: "real \<Rightarrow> real"
  orjson_roundtrip :: "jvalue \<Rightarrow> jvalue option"

text \<open>
  The manager's mutable fields. \<open>redis\<close> is \<open>None\<close> when no remote tier is configured,
  otherwise the remote tier's entries with the instant at which \<open>setex\<close> lets them
  lapse. \<open>lock_held\<close> is the state of \<open>self._lock\<close>, an \<open>asyncio.Lock\<close>, which is not
  reentrant. \<open>notified\<close> records each call of \<open>_notify_subscribers\<close> with its key,
  oldest first.
\<close>

record cm_state =
  context_store :: "(string \<times> stored_item) list"
  ttl_store :: "(string \<times> real) list"
  cache :: "(string \<times> (jvalue \<times> real)) list"
  redis :: "(string \<times> (jvalue \<times> real)) list option"
  lock_held :: bool
  notified :: "(string \<times> cm_event) list"

definition init_state :: cm_state where
  "init_state = \<lparr>context_store = [], ttl_store = [], cache = [], redis = None,
                  lock_held = False, notified = []\<rparr>"

text \<open>
  Python arithmetic on instants. An instant is a \<open>float\<close>; in \<open>x + n\<close> with an \<open>int\<close>
  \<open>n\<close> the \<open>int\<close> is converted first, which raises \<open>OverflowError\<close> when it rounds
  to \<open>2 ^ 1024\<close> or beyond, and the sum is rounded. (An instant read from the clock is
  far from the magnitude at which the sum itself would leave the range.)
\<close>

definition FLOAT_INT_LIMIT :: int where
  "FLOAT_INT_LIMIT = 2 ^ 1024 - 2 ^ 970"

definition float_of_int :: "cm_config \<Rightarrow> int \<Rightarrow> py_error + real" where
  "float_of_int cfg n =
     (if \<bar>n\<bar> \<ge> FLOAT_INT_LIMIT then Inl OverflowError
      else Inr (round64 cfg (real_of_int n)))"

definition float_add_int :: "cm_config \<Rightarrow> real \<Rightarrow> int \<Rightarrow> py_error + real" where
  "float_add_int cfg x n =
     (case float_of_int cfg n of
        Inl e \<Rightarrow> Inl e
      | Inr y \<Rightarrow> Inr (round64 cfg (x + y)))"

text \<open>The documents whose every \<open>int\<close> fits 64 bits, signed or unsigned.\<close>

primrec ints_in_64_bits :: "jvalue \<Rightarrow> bool" where
  "ints_in_64_bits JNull = True"
| "ints_in_64_bits (JBool b) = True"
| "ints_in_64_bits (JInt i) = (- (2 ^ 63) \<le> i \<and> i < 2 ^ 64)"
| "ints_in_64_bits (JFloat x) = True"
| "ints_in_64_bits (JStr s) = True"
| "ints_in_64_bits (JArr xs) = list_all (\<lambda>b. b) (map ints_in_64_bits xs)"
| "ints_in_64_bits (JObj kvs) = list_all snd (map (map_prod id ints_in_64_bits) kvs)"

text \<open>
  The constructor's defaults. The instants and durations of the examples are small
  whole numbers, which binary64 holds exactly, so the examples' rounding leaves
  them as they are; \<open>orjson\<close> gives back the documents whose \<open>int\<close>s fit 64 bits.
\<close>

definition default_config :: cm_config where
  "default_config =
     \<lparr>cache_ttl = 300, max_cache_size = 10000, enable_persistence = True,
      round64 = (\<lambda>x. x),
      orjson_roundtrip = (\<lambda>d. if ints_in_64_bits d then Some d else None)\<rparr>"

subsection \<open>Cache layer\<close>

definition notify_subscribers :: "string \<Rightarrow> cm_event \<Rightarrow> cm_state \<Rightarrow> cm_state" where
  "notify_subscribers key ev s = s\<lparr>notified := notified s @ [(key, ev)]\<rparr>"

text \<open>
  \<open>_get_from_cache\<close>: the remote tier first, then the local one, where a lapsed entry
  is removed. The result is a Python value, \<open>None\<close> (\<open>JNull\<close>) on a miss.
\<close>

definition get_from_cache :: "real \<Rightarrow> string \<Rightarrow> cm_state \<Rightarrow> jvalue \<times> cm_state" where
  "get_from_cache now key s =
     (case (case redis s of
              None \<Rightarrow> None
            | Some r \<Rightarrow>
                (case map_of r key of
                   None \<Rightarrow> None
                 | Some (v, expiry) \<Rightarrow> if expiry > now then Some v else None)) of
        Some v \<Rightarrow> (v, s)
      | None \<Rightarrow>
          (case map_of (cache s) key of
             None \<Rightarrow> (JNull, s)
           | Some (v, expiry) \<Rightarrow>
               if expiry > now then (v, s)
               else (JNull, s\<lparr>cache := AList.delete key (cache s)\<rparr>)))"

text \<open>
  \<open>_update_cache\<close> computes the expiry first, which can raise. The remote tier
  takes the value as \<open>orjson\<close> writes it, and is left alone when that fails. When the
  local tier is full the \<open>max(1, max_cache_size // 10)\<close> entries with the smallest
  expiry go first (Python's \<open>sorted\<close> is stable, as \<open>sort_key\<close> is).
\<close>

definition evict_oldest :: "cm_config \<Rightarrow> (string \<times> (jvalue \<times> real)) list
    \<Rightarrow> (string \<times> (jvalue \<times> real)) list" where
  "evict_oldest cfg c =
     (if int (length c) \<ge> max_cache_size cfg
      then let items_to_remove = max 1 (max_cache_size cfg div 10);
               oldest_keys = take (nat items_to_remove)
                               (map fst (sort_key (\<lambda>(k, v, expiry). expiry) c))
           in fold AList.delete oldest_keys c
      else c)"

definition update_cache :: "cm_config \<Rightarrow> real \<Rightarrow> string \<Rightarrow> jvalue \<Rightarrow> cm_state
    \<Rightarrow> py_error + cm_state" where
  "update_cache cfg now key v s =
     (case float_add_int cfg now (cache_ttl cfg) of
        Inl e \<Rightarrow> Inl e
      | Inr expiry \<Rightarrow>
          Inr (s\<lparr>redis := (case redis s of
                             None \<Rightarrow> None
                           | Some r \<Rightarrow>
                               (case orjson_roundtrip cfg v of
                                  None \<Rightarrow> Some r
                                | Some v' \<Rightarrow> Some (AList.update key (v', expiry) r))),
                 cache := AList.update key (v, expiry) (evict_oldest cfg (cache s))\<rparr>))"

definition delete_from_cache :: "string \<Rightarrow> cm_state \<Rightarrow> cm_state" where
  "delete_from_cache key s =
     s\<lparr>redis := (case redis s of None \<Rightarrow> None | Some r \<Rightarrow> Some (AList.delete key r)),
       cache := (if has_key (cache s) key then AList.delete key (cache s) else cache s)\<rparr>"

subsection \<open>set, delete, get, list\<close>

text \<open>
  One reading \<open>now\<close> of \<open>time.time()\<close> stands for all the readings made during one
  call. Validation comes before the lock is taken; a call that finds the lock held
  waits. The value is stored first; an exception raised after that, while the expiry
  or the cache entry is computed, is caught by the handler, which returns \<open>False\<close>
  and takes nothing back. \<open>set_ttl\<close> is the step that sets the expiry when \<open>ttl\<close>
  is given and positive and removes the key's expiry otherwise.
\<close>

definition set_ttl :: "cm_config \<Rightarrow> real \<Rightarrow> string \<Rightarrow> int option \<Rightarrow> cm_state
    \<Rightarrow> py_error + cm_state" where
  "set_ttl cfg now key ttl s1 =
     (case ttl of
        Some t \<Rightarrow>
          if t > 0
          then (case float_add_int cfg now t of
                  Inl e \<Rightarrow> Inl e
                | Inr expiry \<Rightarrow>
                    Inr (s1\<lparr>ttl_store := AList.update key expiry (ttl_store s1)\<rparr>))
          else if has_key (ttl_store s1) key
          then Inr (s1\<lparr>ttl_store := AList.delete key (ttl_store s1)\<rparr>)
          else Inr s1
      | None \<Rightarrow>
          if has_key (ttl_store s1) key
          then Inr (s1\<lparr>ttl_store := AList.delete key (ttl_store s1)\<rparr>)
          else Inr s1)"

definition set_context :: "cm_config \<Rightarrow> real \<Rightarrow> string \<Rightarrow> jvalue \<Rightarrow> int option
    \<Rightarrow> (string \<times> jvalue) list option \<Rightarrow> bool \<Rightarrow> cm_state \<Rightarrow> bool outcome \<times> cm_state" where
  "set_context cfg now key v ttl metadata notify s =
     (case ContextItem key v ttl (case metadata of None \<Rightarrow> [] | Some m \<Rightarrow> m) of
        Inl e \<Rightarrow> (Returns False, s)
      | Inr item \<Rightarrow>
          if lock_held s then (Blocks, s)
          else
            let s1 = s\<lparr>context_store :=
                        AList.update key
                          \<lparr>item_value = ci_value item, item_metadata = ci_metadata item,
                           created_at = now, updated_at = now\<rparr>
                          (context_store s)\<rparr>
            in
              (case set_ttl cfg now key ttl s1 of
                 Inl e \<Rightarrow> (Returns False, s1)
               | Inr s2 \<Rightarrow>
                   (case update_cache cfg now key (ci_value item) s2 of
                      Inl e \<Rightarrow> (Returns False, s2)
                    | Inr s3 \<Rightarrow>
                        (Returns True,
                         if notify then notify_subscribers key (SetEvent key v metadata) s3
                         else s3))))"

text \<open>\<open>_delete_context\<close> takes the lock itself.\<close>

definition delete_context_internal :: "string \<Rightarrow> bool \<Rightarrow> cm_state \<Rightarrow> bool outcome \<times> cm_state" where
  "delete_context_internal key notify s =
     (if lock_held s then (Blocks, s)
      else
        case map_of (context_store s) key of
          None \<Rightarrow> (Returns False, s)
        | Some item \<Rightarrow>
            let old_value = item_value item;
                s1 = s\<lparr>context_store := AList.delete key (context_store s)\<rparr>;
                s2 = (if has_key (ttl_store s1) key
                      then s1\<lparr>ttl_store := AList.delete key (ttl_store s1)\<rparr> else s1);
                s3 = delete_from_cache key s2;
                s4 = (if notify then notify_subscribers key (DeleteEvent key old_value) s3 else s3)
            in (Returns True, s4))"

definition delete_context :: "string \<Rightarrow> cm_state \<Rightarrow> bool outcome \<times> cm_state" where
  "delete_context key s = delete_context_internal key True s"

text \<open>
  The definition of \<open>get_context\<close> at line 246. It calls \<open>_delete_context\<close> while it
  holds the lock.
\<close>

definition get_context_keyed :: "cm_config \<Rightarrow> real \<Rightarrow> string \<Rightarrow> bool \<Rightarrow> cm_state
    \<Rightarrow> jvalue outcome \<times> cm_state" where
  "get_context_keyed cfg now key use_cache s =
     (let (cached_value, s0) = (if use_cache then get_from_cache now key s else (JNull, s))
      in if use_cache \<and> cached_value \<noteq> JNull then (Returns cached_value, s0)
         else if lock_held s0 then (Blocks, s0)
         else
           let sl = s0\<lparr>lock_held := True\<rparr>
           in if \<not> has_key (context_store sl) key then (Returns JNull, sl\<lparr>lock_held := False\<rparr>)
              else if has_key (ttl_store sl) key \<and> the (map_of (ttl_store sl) key) < now
              then (case delete_context_internal key False sl of
                      (Returns b, sd) \<Rightarrow> (Returns JNull, sd\<lparr>lock_held := False\<rparr>)
                    | (Raises e, sd) \<Rightarrow> (Raises e, sd\<lparr>lock_held := False\<rparr>)
                    | (Blocks, sd) \<Rightarrow> (Blocks, sd))
              else
                let v = item_value (the (map_of (context_store sl) key))
                in (case update_cache cfg now key v sl of
                      Inl e \<Rightarrow> (Raises e, sl\<lparr>lock_held := False\<rparr>)
                    | Inr su \<Rightarrow> (Returns v, su\<lparr>lock_held := False\<rparr>)))"

text \<open>
  The class body defines \<open>get_context\<close> a second time at line 734, with no parameter
  but \<open>self\<close>; the later definition is the one the class keeps. It reads
  \<open>self._subscribers\<close>, which no method assigns.
\<close>

datatype get_context_def = Keyed_get_context | Info_get_context

definition class_body_get_context :: "get_context_def list" where
  "class_body_get_context = [Keyed_get_context, Info_get_context]"

definition bound_get_context :: get_context_def where
  "bound_get_context = last class_body_get_context"

definition get_context_info :: "real \<Rightarrow> cm_state \<Rightarrow> jvalue outcome \<times> cm_state" where
  "get_context_info now s = (Raises AttributeError, s)"

text \<open>The call \<open>get_context(key, use_cache)\<close> on an instance of the class.\<close>

definition get_context :: "cm_config \<Rightarrow> real \<Rightarrow> string \<Rightarrow> bool \<Rightarrow> cm_state
    \<Rightarrow> jvalue outcome \<times> cm_state" where
  "get_context cfg now key use_cache s =
     (case bound_get_context of
        Keyed_get_context \<Rightarrow> get_context_keyed cfg now key use_cache s
      | Info_get_context \<Rightarrow> (Raises TypeError, s))"

fun startswith :: "string \<Rightarrow> string \<Rightarrow> bool" where
  "startswith s [] = True"
| "startswith [] (p # ps) = False"
| "startswith (c # cs) (p # ps) = (c = p \<and> startswith cs ps)"

definition list_keys :: "real \<Rightarrow> string \<Rightarrow> cm_state \<Rightarrow> string list outcome \<times> cm_state" where
  "list_keys now pre s =
     (if lock_held s then (Blocks, s)
      else (Returns [key \<leftarrow> map fst (context_store s).
                       startswith key pre \<and>
                       (\<not> has_key (ttl_store s) key \<or> the (map_of (ttl_store s) key) \<ge> now)],
            s))"

subsection \<open>Bulk operations\<close>

text \<open>
  An operation of \<open>bulk_operation\<close> is a dict; \<open>op.get("operation")\<close>, \<open>op.get("ttl")\<close>
  and \<open>op.get("metadata")\<close> give \<open>None\<close> for a missing key, \<open>op["key"]\<close> and
  \<open>op["value"]\<close> raise \<open>KeyError\<close>.
\<close>

record bulk_op =
  op_operation :: "string option"
  op_key :: "string option"
  op_value :: "jvalue option"
  op_ttl :: "int option"
  op_metadata :: "(string \<times> jvalue) list option"

text \<open>An entry of \<open>errors\<close> holds the operation and the exception.\<close>

record bulk_results =
  succeeded :: nat
  failed :: nat
  errors :: "(bulk_op \<times> py_error) list"

definition apply_bulk_op :: "cm_config \<Rightarrow> real \<Rightarrow> bulk_op \<Rightarrow> cm_state \<Rightarrow> bool outcome \<times> cm_state" where
  "apply_bulk_op cfg now op s =
     (if op_operation op = Some ''set'' then
        (case op_key op of
           None \<Rightarrow> (Raises KeyError, s)
         | Some k \<Rightarrow>
             (case op_value op of
                None \<Rightarrow> (Raises KeyError, s)
              | Some v \<Rightarrow> set_context cfg now k v (op_ttl op) (op_metadata op) False s))
      else if op_operation op = Some ''delete'' then
        (case op_key op of
           None \<Rightarrow> (Raises KeyError, s)
         | Some k \<Rightarrow> delete_context_internal k False s)
      else (Raises ValueError, s))"

text \<open>
  The \<open>for\<close> loop. An operation that returns \<open>False\<close> is counted in \<open>failed\<close>; under
  \<open>fail_fast\<close> it then raises into the handler, which adds the error entry, counts it
  again and leaves the loop. The handler is the only place that adds an error entry.
\<close>

fun bulk_loop :: "cm_config \<Rightarrow> real \<Rightarrow> bool \<Rightarrow> bulk_op list \<Rightarrow> bulk_results \<Rightarrow> cm_state
    \<Rightarrow> bulk_results outcome \<times> cm_state" where
  "bulk_loop cfg now fail_fast [] r s = (Returns r, s)"
| "bulk_loop cfg now fail_fast (op # ops) r s =
     (case apply_bulk_op cfg now op s of
        (Blocks, s') \<Rightarrow> (Blocks, s')
      | (Returns success, s') \<Rightarrow>
          if success then bulk_loop cfg now fail_fast ops (r\<lparr>succeeded := succeeded r + 1\<rparr>) s'
          else
            let r1 = r\<lparr>failed := failed r + 1\<rparr>
            in if fail_fast
               then (Returns (r1\<lparr>errors := errors r1 @ [(op, OperationFailed)],
                                 failed := failed r1 + 1\<rparr>), s')
               else bulk_loop cfg now fail_fast ops r1 s'
      | (Raises e, s') \<Rightarrow>
          let r1 = r\<lparr>errors := errors r @ [(op, e)], failed := failed r + 1\<rparr>
          in if fail_fast then (Returns r1, s')
             else bulk_loop cfg now fail_fast ops r1 s')"

text \<open>
  Attempting every operation of a sequence in order, each on the state its
  predecessors left, with the outcome of each; and the entries of the outcomes that
  raised.
\<close>

fun attempt_all :: "cm_config \<Rightarrow> real \<Rightarrow> bulk_op list \<Rightarrow> cm_state
    \<Rightarrow> (bulk_op \<times> bool outcome) list \<times> cm_state" where
  "attempt_all cfg now [] s = ([], s)"
| "attempt_all cfg now (op # ops) s =
     (let (out, s1) = apply_bulk_op cfg now op s;
          (rest, s2) = attempt_all cfg now ops s1
      in ((op, out) # rest, s2))"

fun error_entries :: "(bulk_op \<times> bool outcome) list \<Rightarrow> (bulk_op \<times> py_error) list" where
  "error_entries [] = []"
| "error_entries ((op, Raises e) # xs) = (op, e) # error_entries xs"
| "error_entries ((op, Returns b) # xs) = error_entries xs"
| "error_entries ((op, Blocks) # xs) = error_entries xs"

definition bulk_operation :: "cm_config \<Rightarrow> real \<Rightarrow> bulk_op list \<Rightarrow> bool \<Rightarrow> cm_state
    \<Rightarrow> bulk_results outcome \<times> cm_state" where
  "bulk_operation cfg now operations fail_fast s =
     (case bulk_loop cfg now fail_fast operations \<lparr>succeeded = 0, failed = 0, errors = []\<rparr> s of
        (Returns results, s') \<Rightarrow>
          if succeeded results > 0
          then (Returns results,
                notify_subscribers [] (BulkUpdateEvent (succeeded results) (failed results)) s')
          else (Returns results, s')
      | (Raises e, s') \<Rightarrow> (Raises e, s')
      | (Blocks, s') \<Rightarrow> (Blocks, s'))"

subsection \<open>Snapshot persistence\<close>

text \<open>
  The two files under \<open>storage_path\<close>. A file is held as the document that
  \<open>orjson.loads\<close> reads from it.
\<close>

record cm_disk =
  context_tmp :: "jvalue option"
  context_json :: "jvalue option"

definition item_to_json :: "stored_item \<Rightarrow> jvalue" where
  "item_to_json i =
     JObj [(''value'', item_value i), (''metadata'', JObj (item_metadata i)),
           (''created_at'', JFloat (created_at i)), (''updated_at'', JFloat (updated_at i))]"

definition store_to_json :: "(string \<times> stored_item) list \<Rightarrow> jvalue" where
  "store_to_json st = JObj (map (\<lambda>(k, i). (k, item_to_json i)) st)"

definition ttl_to_json :: "(string \<times> real) list \<Rightarrow> jvalue" where
  "ttl_to_json tt = JObj (map (\<lambda>(k, e). (k, JFloat e)) tt)"

text \<open>
  Reading a loaded document as the store's dicts. \<open>None\<close> stands for a document of
  another shape than \<open>_persist_data\<close> writes, which the typed state cannot hold.
\<close>

definition json_to_item :: "jvalue \<Rightarrow> stored_item option" where
  "json_to_item j =
     (case j of
        JObj kvs \<Rightarrow>
          (case (map_of kvs ''value'', map_of kvs ''metadata'',
                 map_of kvs ''created_at'', map_of kvs ''updated_at'') of
             (Some v, Some (JObj m), Some (JFloat c), Some (JFloat u)) \<Rightarrow>
               Some \<lparr>item_value = v, item_metadata = m, created_at = c, updated_at = u\<rparr>
           | _ \<Rightarrow> None)
      | _ \<Rightarrow> None)"

fun json_to_entries :: "(jvalue \<Rightarrow> 'a option) \<Rightarrow> (string \<times> jvalue) list \<Rightarrow> (string \<times> 'a) list option" where
  "json_to_entries f [] = Some []"
| "json_to_entries f ((k, j) # kvs) =
     (case f j of
        None \<Rightarrow> None
      | Some x \<Rightarrow> (case json_to_entries f kvs of None \<Rightarrow> None | Some xs \<Rightarrow> Some ((k, x) # xs)))"

definition json_to_store :: "jvalue \<Rightarrow> (string \<times> stored_item) list option" where
  "json_to_store j = (case j of JObj kvs \<Rightarrow> json_to_entries json_to_item kvs | _ \<Rightarrow> None)"

definition json_to_expiry :: "jvalue \<Rightarrow> real option" where
  "json_to_expiry j = (case j of JFloat e \<Rightarrow> Some e | _ \<Rightarrow> None)"

definition json_to_ttl :: "jvalue \<Rightarrow> (string \<times> real) list option" where
  "json_to_ttl j = (case j of JObj kvs \<Rightarrow> json_to_entries json_to_expiry kvs | _ \<Rightarrow> None)"

text \<open>\<open>data.get(key, {})\<close> on a loaded dict.\<close>

definition dict_get :: "(string \<times> jvalue) list \<Rightarrow> string \<Rightarrow> jvalue \<Rightarrow> jvalue" where
  "dict_get d k dflt = (case map_of d k of None \<Rightarrow> dflt | Some v \<Rightarrow> v)"

text \<open>
  \<open>_persist_data\<close>: the snapshot is taken under the lock, serialized, written to
  \<open>context.tmp\<close> and moved over \<open>context.json\<close>. When the serializer raises, the
  handler logs the error and no file is touched.
\<close>

definition snapshot_document :: "real \<Rightarrow> cm_state \<Rightarrow> jvalue" where
  "snapshot_document now s =
     JObj [(''context_store'', store_to_json (context_store s)),
           (''ttl_store'', ttl_to_json (ttl_store s)),
           (''timestamp'', JFloat now)]"

definition persist_data :: "cm_config \<Rightarrow> real \<Rightarrow> cm_state \<Rightarrow> cm_disk \<Rightarrow> unit outcome \<times> cm_disk" where
  "persist_data cfg now s d =
     (if \<not> enable_persistence cfg then (Returns (), d)
      else if lock_held s then (Blocks, d)
      else
        case orjson_roundtrip cfg (snapshot_document now s) of
          None \<Rightarrow> (Returns (), d)
        | Some json_data \<Rightarrow>
            let d1 = d\<lparr>context_tmp := Some json_data\<rparr>;
                d2 = d1\<lparr>context_json := context_tmp d1, context_tmp := None\<rparr>
            in (Returns (), d2))"

text \<open>
  \<open>_load_persisted_data\<close>. A document that is no dict makes \<open>data.get\<close> raise, which
  the handler logs; the state stays as it was.
\<close>

definition load_persisted_data :: "cm_config \<Rightarrow> cm_disk \<Rightarrow> cm_state
    \<Rightarrow> (unit outcome \<times> cm_state) option" where
  "load_persisted_data cfg d s =
     (if \<not> enable_persistence cfg then Some (Returns (), s)
      else
        case context_json d of
          None \<Rightarrow> Some (Returns (), s)
        | Some data \<Rightarrow>
            (case data of
               JObj doc \<Rightarrow>
                 if lock_held s then Some (Blocks, s)
                 else
                   (case (json_to_store (dict_get doc ''context_store'' (JObj [])),
                          json_to_ttl (dict_get doc ''ttl_store'' (JObj []))) of
                      (Some st, Some tt) \<Rightarrow>
                        Some (Returns (), s\<lparr>context_store := st, ttl_store := tt\<rparr>)
                    | _ \<Rightarrow> None)
             | _ \<Rightarrow> Some (Returns (), s)))"

subsection \<open>Sequences of set and delete\<close>

text \<open>A call of \<open>set_context\<close> with its clock reading, or a call of \<open>delete_context\<close>.\<close>

datatype cm_op =
    OpSet real string jvalue "int option" "(string \<times> jvalue) list option" bool
  | OpDelete string

fun apply_op :: "cm_config \<Rightarrow> cm_op \<Rightarrow> cm_state \<Rightarrow> cm_state" where
  "apply_op cfg (OpSet now key v ttl metadata notify) s =
     snd (set_context cfg now key v ttl metadata notify s)"
| "apply_op cfg (OpDelete key) s = snd (delete_context key s)"

text \<open>
  Each operation runs from taking the lock to releasing it as one step; a sequence
  of operations is a sequence of such steps.
\<close>

fun run_ops :: "cm_config \<Rightarrow> cm_op list \<Rightarrow> cm_state \<Rightarrow> cm_state" where
  "run_ops cfg [] s = s"
| "run_ops cfg (op # ops) s = run_ops cfg ops (apply_op cfg op s)"


definition count_ok :: "(bulk_op \<times> bool outcome) list \<Rightarrow> nat" where
  "count_ok trace = length [x \<leftarrow> trace. snd x = Returns True]"

text \<open>
  The call of the specification's end-to-end example: two \<open>set\<close> operations and the
  \<open>delete\<close> of a key that is not there.
\<close>

definition spec_example_ops :: "bulk_op list" where
  "spec_example_ops =
     [\<lparr>op_operation = Some ''set'', op_key = Some ''k1'', op_value = Some (JInt 1),
       op_ttl = None, op_metadata = None\<rparr>,
      \<lparr>op_operation = Some ''set'', op_key = Some ''k2'', op_value = Some (JInt 2),
       op_ttl = None, op_metadata = None\<rparr>,
      \<lparr>op_operation = Some ''delete'', op_key = Some ''k3'', op_value = None,
       op_ttl = None, op_metadata = None\<rparr>]"

section \<open>File manager (app/core/file_manager.py)\<close>

subsection \<open>Strings and paths\<close>

fun endswith :: "string \<Rightarrow> string \<Rightarrow> bool" where
  "endswith s suffix = startswith (rev s) (rev suffix)"

definition lower_char :: "char \<Rightarrow> char" where
  "lower_char c =
     (let n = (of_char c :: nat) in if 65 \<le> n \<and> n \<le> 90 then char_of (n + 32) else c)"

text \<open>\<open>str.lower()\<close>, on ASCII letters.\<close>

definition lower :: "string \<Rightarrow> string" where
  "lower s = map lower_char s"

text \<open>The ASCII characters that \<open>str.strip()\<close> and \<open>int()\<close> count as blank.\<close>

definition is_space :: "char \<Rightarrow> bool" where
  "is_space c =
     (let n = (of_char c :: nat) in n = 32 \<or> (9 \<le> n \<and> n \<le> 13) \<or> (28 \<le> n \<and> n \<le> 31))"

definition strip :: "string \<Rightarrow> string" where
  "strip s = rev (dropWhile is_space (rev (dropWhile is_space s)))"

text \<open>\<open>s.replace(a, b)\<close> for single characters.\<close>

definition replace_char :: "char \<Rightarrow> char \<Rightarrow> string \<Rightarrow> string" where
  "replace_char a b s = map (\<lambda>c. if c = a then b else c) s"

fun split_on :: "char \<Rightarrow> string \<Rightarrow> string list" where
  "split_on d [] = [[]]"
| "split_on d (c # cs) =
     (if c = d then [] # split_on d cs
      else (case split_on d cs of [] \<Rightarrow> [[c]] | w # ws \<Rightarrow> (c # w) # ws))"

fun join_with :: "string \<Rightarrow> string list \<Rightarrow> string" where
  "join_with sep [] = []"
| "join_with sep [x] = x"
| "join_with sep (x # y # ys) = x @ sep @ join_with sep (y # ys)"

text \<open>
  \<open>Path(s).as_posix()\<close> on a POSIX host: empty and \<open>.\<close> components are dropped, a
  leading slash is kept (two when there are exactly two), and nothing at all is
  \<open>.\<close>.
\<close>

definition as_posix :: "string \<Rightarrow> string" where
  "as_posix s =
     (let parts = [p \<leftarrow> split_on CHR ''/'' s. p \<noteq> [] \<and> p \<noteq> ''.''];
          root = (if startswith s ''//'' \<and> \<not> startswith s ''///'' then ''//''
                  else if startswith s ''/'' then ''/'' else [])
      in if root = [] \<and> parts = [] then ''.'' else root @ join_with ''/'' parts)"

text \<open>
  \<open>PurePath.suffix\<close> and \<open>PurePath.stem\<close> of a file name: the last dot counts when it
  is neither the first nor the last character.
\<close>

definition rfind_dot :: "string \<Rightarrow> nat option" where
  "rfind_dot name =
     (if CHR ''.'' \<in> set name
      then Some (length name - 1 - length (takeWhile (\<lambda>c. c \<noteq> CHR ''.'') (rev name)))
      else None)"

definition path_suffix :: "string \<Rightarrow> string" where
  "path_suffix name =
     (case rfind_dot name of
        None \<Rightarrow> []
      | Some i \<Rightarrow> if 0 < i \<and> i < length name - 1 then drop i name else [])"

definition path_stem :: "string \<Rightarrow> string" where
  "path_stem name =
     (case rfind_dot name of
        None \<Rightarrow> name
      | Some i \<Rightarrow> if 0 < i \<and> i < length name - 1 then take i name else name)"

text \<open>Decimal notation, as \<open>str(n)\<close> and f-strings print an \<open>int\<close>.\<close>

definition digit_char :: "nat \<Rightarrow> char" where
  "digit_char d = ''0123456789'' ! d"

function str_nat :: "nat \<Rightarrow> string" where
  "str_nat n = (if n < 10 then [digit_char n] else str_nat (n div 10) @ [digit_char (n mod 10)])"
  by pat_completeness auto
termination
  by (relation "measure id") auto

declare str_nat.simps [simp del]

definition str_int :: "int \<Rightarrow> string" where
  "str_int i = (if i < 0 then CHR ''-'' # str_nat (nat (- i)) else str_nat (nat i))"

text \<open>
  \<open>int(s)\<close> in base ten: blanks around the number are dropped, a sign may come
  first, and the digits may be grouped by single underscores between digits;
  \<open>None\<close> is the \<open>ValueError\<close>. Characters are ASCII.
\<close>

definition is_digit :: "char \<Rightarrow> bool" where
  "is_digit c = (48 \<le> (of_char c :: nat) \<and> (of_char c :: nat) \<le> 57)"

fun underscores_single :: "string \<Rightarrow> bool" where
  "underscores_single (a # b # cs) =
     (\<not> (a = CHR ''_'' \<and> b = CHR ''_'') \<and> underscores_single (b # cs))"
| "underscores_single cs = True"

definition parse_nat :: "string \<Rightarrow> nat option" where
  "parse_nat s =
     (if s \<noteq> [] \<and> is_digit (hd s) \<and> is_digit (last s) \<and>
         list_all (\<lambda>c. is_digit c \<or> c = CHR ''_'') s \<and> underscores_single s
      then Some (foldl (\<lambda>a c. 10 * a + (of_char c - 48)) 0 (filter is_digit s))
      else None)"

definition parse_int :: "string \<Rightarrow> int option" where
  "parse_int s =
     (case strip s of
        [] \<Rightarrow> None
      | c # r \<Rightarrow>
          if c = CHR ''-'' then map_option (\<lambda>n. - int n) (parse_nat r)
          else if c = CHR ''+'' then map_option int (parse_nat r)
          else map_option int (parse_nat (c # r)))"

subsection \<open>The metadata model\<close>

text \<open>
  The pydantic model \<open>FileMetadata\<close>. Instants are seconds since the epoch.
\<close>

record file_metadata =
  file_id :: string
  filename :: string
  content_type :: string
  fm_size :: int
  checksum :: string
  fm_metadata :: "(string \<times> jvalue) list"
  tags :: "string list"
  fm_created_at :: real
  fm_updated_at :: real
  version :: int
  path :: string
  is_deleted :: bool
  deleted_at :: "real option"
  created_by :: "string option"
  updated_by :: "string option"

text \<open>
  The keyword arguments of a call \<open>FileMetadata(...)\<close>: \<open>None\<close> for an argument the
  call does not pass.
\<close>

record file_metadata_args =
  arg_file_id :: "string option"
  arg_filename :: "string option"
  arg_content_type :: "string option"
  arg_size :: "int option"
  arg_checksum :: "string option"
  arg_metadata :: "(string \<times> jvalue) list option"
  arg_tags :: "string list option"
  arg_created_at :: "real option"
  arg_updated_at :: "real option"
  arg_version :: "int option"
  arg_path :: "string option"
  arg_is_deleted :: "bool option"

definition validate_content_type :: "string \<Rightarrow> string" where
  "validate_content_type v =
     (if v = [] \<or> list_all is_space v then ''application/octet-stream'' else lower v)"

definition or_default :: "'a option \<Rightarrow> 'a \<Rightarrow> 'a" where
  "or_default x d = (case x of None \<Rightarrow> d | Some v \<Rightarrow> v)"

text \<open>
  Model validation: \<open>file_id\<close>, \<open>filename\<close>, \<open>content_type\<close>, \<open>size\<close>, \<open>checksum\<close> and
  \<open>path\<close> are declared with \<open>Field(...)\<close> and have no default; \<open>size\<close> has \<open>ge=0\<close>; the
  \<open>checksum\<close> validator refuses an empty string.
\<close>

definition FileMetadata :: "real \<Rightarrow> file_metadata_args \<Rightarrow> py_error + file_metadata" where
  "FileMetadata now a =
     (case (arg_file_id a, arg_filename a, arg_content_type a, arg_size a, arg_checksum a,
            arg_path a) of
        (Some fid, Some fname, Some ctype, Some sz, Some csum, Some pth) \<Rightarrow>
          if sz < 0 \<or> csum = [] then Inl ValidationError
          else Inr \<lparr>file_id = fid, filename = fname,
                    content_type = validate_content_type ctype,
                    fm_size = sz, checksum = lower csum,
                    fm_metadata = or_default (arg_metadata a) [],
                    tags = or_default (arg_tags a) [],
                    fm_created_at = or_default (arg_created_at a) now,
                    fm_updated_at = or_default (arg_updated_at a) now,
                    version = or_default (arg_version a) 1,
                    path = pth,
                    is_deleted = or_default (arg_is_deleted a) False,
                    deleted_at = None, created_by = None, updated_by = None\<rparr>
      | _ \<Rightarrow> Inl ValidationError)"

subsection \<open>Storage\<close>

text \<open>
  The tree under \<open>storage_root\<close>: files by their path components, in the order the
  operating system enumerates them. A file holds bytes, or the text that
  \<open>FileMetadata.json\<close> writes for a record, which \<open>parse_raw\<close> reads back; other
  contents do not parse.
\<close>

type_synonym fpath = "string list"

datatype fcontent = Bytes string | MetaJson file_metadata

type_synonym filesystem = "(fpath \<times> fcontent) list"

datatype fm_event = FileEvent string "(string \<times> jvalue) list"

text \<open>
  \<open>sha256\<close> is the digest, \<open>to_json\<close> the serializer, \<open>magic_from_file\<close> the content
  type detection of python-magic (\<open>None\<close> when it is missing or fails).
\<close>

record fm_config =
  max_file_size :: int
  allowed_extensions :: "string list"
  sha256 :: "string \<Rightarrow> string"
  to_json :: "file_metadata \<Rightarrow> string"
  magic_from_file :: "fcontent \<Rightarrow> string option"

definition ALLOWED_EXTENSIONS :: "string list" where
  "ALLOWED_EXTENSIONS =
     [''txt'', ''pdf'', ''png'', ''jpg'', ''jpeg'', ''gif'', ''csv'', ''json'', ''yaml'', ''yml'',
      ''xlsx'', ''xls'', ''xlsm'', ''xlsb'', ''doc'', ''docx'', ''ppt'', ''pptx'', ''zip'', ''rar'',
      ''py'', ''js'', ''html'', ''css'', ''md'']"

definition MAX_FILE_SIZE :: int where
  "MAX_FILE_SIZE = 1024 * 1024 * 1024"

text \<open>\<open>files\<close> is the tree; \<open>published\<close> the calls of \<open>_publish_event\<close>, oldest first.\<close>

record fm_state =
  files :: filesystem
  published :: "fm_event list"

definition content_bytes :: "fm_config \<Rightarrow> fcontent \<Rightarrow> string" where
  "content_bytes cfg c = (case c of Bytes b \<Rightarrow> b | MetaJson m \<Rightarrow> to_json cfg m)"

definition parse_raw :: "fcontent \<Rightarrow> py_error + file_metadata" where
  "parse_raw c = (case c of MetaJson m \<Rightarrow> Inr m | Bytes b \<Rightarrow> Inl ValidationError)"

definition get_file_path :: "string \<Rightarrow> int option \<Rightarrow> fpath" where
  "get_file_path fid ver =
     (case ver of
        Some v \<Rightarrow> [''versions'', fid, ''v'' @ str_int v]
      | None \<Rightarrow> [fid])"

text \<open>\<open>if version:\<close> is false for \<open>None\<close> and for \<open>0\<close>.\<close>

definition get_metadata_path :: "string \<Rightarrow> int option \<Rightarrow> fpath" where
  "get_metadata_path fid ver =
     (if ver \<noteq> None \<and> ver \<noteq> Some 0
      then [''metadata'', fid @ ''_v'' @ str_int (the ver) @ ''.json'']
      else [''metadata'', fid @ ''.json''])"

definition validate_extension :: "fm_config \<Rightarrow> string \<Rightarrow> bool" where
  "validate_extension cfg fname =
     (CHR ''.'' \<in> set fname \<and>
      lower (rev (takeWhile (\<lambda>c. c \<noteq> CHR ''.'') (rev fname))) \<in> set (allowed_extensions cfg))"

definition calculate_checksum :: "fm_config \<Rightarrow> filesystem \<Rightarrow> fpath \<Rightarrow> py_error + string" where
  "calculate_checksum cfg fs p =
     (case map_of fs p of
        None \<Rightarrow> Inl FileNotFoundError
      | Some c \<Rightarrow> Inr (sha256 cfg (content_bytes cfg c)))"

definition publish_event :: "string \<Rightarrow> (string \<times> jvalue) list \<Rightarrow> fm_state \<Rightarrow> fm_state" where
  "publish_event event_type data s = s\<lparr>published := published s @ [FileEvent event_type data]\<rparr>"

definition get_file_metadata :: "filesystem \<Rightarrow> string \<Rightarrow> int option \<Rightarrow> py_error + file_metadata" where
  "get_file_metadata fs fid ver =
     (case map_of fs (get_metadata_path fid ver) of
        None \<Rightarrow> Inl FileNotFoundError
      | Some c \<Rightarrow> parse_raw c)"

subsection \<open>Writing to the tree\<close>

text \<open>
  The file operations the manager performs, one system call each. Opening a file
  with mode \<open>w\<close> creates it or cuts it to length zero.
\<close>

datatype fs_step =
    OpenTruncate fpath
  | WriteAll fpath fcontent
  | Rename fpath fpath
  | Remove fpath

definition fs_rename :: "fpath \<Rightarrow> fpath \<Rightarrow> filesystem \<Rightarrow> filesystem" where
  "fs_rename src dst fs =
     (case map_of fs src of
        None \<Rightarrow> fs
      | Some c \<Rightarrow> AList.update dst c (AList.delete src fs))"

fun exec_step :: "fs_step \<Rightarrow> filesystem \<Rightarrow> filesystem" where
  "exec_step (OpenTruncate p) fs = AList.update p (Bytes []) fs"
| "exec_step (WriteAll p c) fs = AList.update p c fs"
| "exec_step (Rename src dst) fs = fs_rename src dst fs"
| "exec_step (Remove p) fs = AList.delete p fs"

text \<open>
  \<open>metadata.json(indent=2)\<close>. The models are pydantic 2 models (the module uses
  \<open>field_serializer\<close>, \<open>model_dump\<close> and \<open>model_dump_json\<close>), and the \<open>json\<close> method
  pydantic 2 keeps for compatibility refuses keyword arguments of the old
  serializer such as \<open>indent\<close> with a \<open>TypeError\<close>.
\<close>

definition json_indent :: "file_metadata \<Rightarrow> py_error + fcontent" where
  "json_indent md = Inl TypeError"

text \<open>
  \<open>_save_metadata\<close> opens the path \<open>_get_metadata_path(file_id, version)\<close> itself for
  writing and then evaluates \<open>f.write(metadata.json(indent=2))\<close>; an exception is
  logged and raised again. \<open>save_metadata_steps\<close> are the file operations a call
  performs.
\<close>

definition save_metadata_steps :: "file_metadata \<Rightarrow> fs_step list" where
  "save_metadata_steps md =
     (let metadata_path = get_metadata_path (file_id md) (Some (version md))
      in OpenTruncate metadata_path #
           (case json_indent md of
              Inl e \<Rightarrow> []
            | Inr text \<Rightarrow> [WriteAll metadata_path text]))"

definition save_metadata :: "filesystem \<Rightarrow> file_metadata \<Rightarrow> (py_error + unit) \<times> filesystem" where
  "save_metadata fs md =
     (let metadata_path = get_metadata_path (file_id md) (Some (version md));
          fs1 = exec_step (OpenTruncate metadata_path) fs
      in case json_indent md of
           Inl e \<Rightarrow> (Inl e, fs1)
         | Inr text \<Rightarrow> (Inr (), exec_step (WriteAll metadata_path text) fs1))"

text \<open>
  What the tree holds when the process stops after the first \<open>n\<close> steps of a write.
\<close>

definition after_steps :: "nat \<Rightarrow> fs_step list \<Rightarrow> filesystem \<Rightarrow> filesystem" where
  "after_steps n steps fs = fold exec_step (take n steps) fs"

definition is_rename :: "fs_step \<Rightarrow> bool" where
  "is_rename st = (case st of Rename src dst \<Rightarrow> True | _ \<Rightarrow> False)"

subsection \<open>Enumerating metadata\<close>

definition under_dir :: "fpath \<Rightarrow> fpath \<Rightarrow> bool" where
  "under_dir d p = (length d < length p \<and> take (length d) p = d)"

definition basename :: "fpath \<Rightarrow> string" where
  "basename p = (if p = [] then [] else last p)"

text \<open>
  \<open>_iter_metadata_files\<close> walks the metadata directory twice: once keeping the paths
  with suffix \<open>.json\<close>, once keeping the names that end in \<open>.json\<close>.
\<close>

definition iter_metadata_files :: "filesystem \<Rightarrow> fpath list" where
  "iter_metadata_files fs =
     [p \<leftarrow> map fst fs. under_dir [''metadata''] p \<and> path_suffix (basename p) = ''.json''] @
     [p \<leftarrow> map fst fs. under_dir [''metadata''] p \<and> endswith (basename p) ''.json'']"

definition read_live_metadata :: "filesystem \<Rightarrow> fpath \<Rightarrow> file_metadata option" where
  "read_live_metadata fs p =
     (case map_of fs p of
        None \<Rightarrow> None
      | Some c \<Rightarrow>
          (case parse_raw c of
             Inl e \<Rightarrow> None
           | Inr m \<Rightarrow> if is_deleted m then None else Some m))"

definition matches_filters :: "string option \<Rightarrow> string option \<Rightarrow> string list option
    \<Rightarrow> file_metadata \<Rightarrow> bool" where
  "matches_filters pre ext tgs m =
     ((case pre of
         None \<Rightarrow> True
       | Some p \<Rightarrow> p = [] \<or>
           startswith (lower (replace_char (CHR 0x5C) CHR ''/'' (filename m)))
                      (lower (replace_char (CHR 0x5C) CHR ''/'' p))) \<and>
      (case ext of
         None \<Rightarrow> True
       | Some e \<Rightarrow> e = [] \<or> endswith (lower (filename m)) (''.'' @ lower e)) \<and>
      (case tgs of
         None \<Rightarrow> True
       | Some ts \<Rightarrow> list_all (\<lambda>t. t \<in> set (tags m)) ts))"

text \<open>
  \<open>list_files\<close>: the records that are not deleted, filtered, newest \<open>updated_at\<close> first
  (the sort is stable), then \<open>[skip : skip + limit]\<close>.
\<close>

definition list_files :: "filesystem \<Rightarrow> string option \<Rightarrow> string option \<Rightarrow> string list option
    \<Rightarrow> nat \<Rightarrow> nat \<Rightarrow> file_metadata list" where
  "list_files fs pre ext tgs skip limit =
     (let all_metadata_files = List.map_filter (read_live_metadata fs) (iter_metadata_files fs);
          filtered_files = filter (matches_filters pre ext tgs) all_metadata_files;
          sorted_files = sort_key (\<lambda>m. - fm_updated_at m) filtered_files
      in take limit (drop skip sorted_files))"

text \<open>\<open>get_file_metadata_by_path\<close> calls \<open>list_files()\<close> with its defaults.\<close>

definition get_file_metadata_by_path :: "filesystem \<Rightarrow> string \<Rightarrow> file_metadata option" where
  "get_file_metadata_by_path fs relative_path =
     List.find (\<lambda>m. as_posix (filename m) = as_posix relative_path)
       (list_files fs None None None 0 100)"

text \<open>
  \<open>_find_file_by_checksum\<close> takes the stem of each metadata path as a file id and
  reads that id's current record; a read that fails is skipped.
\<close>

fun find_checksum_in :: "filesystem \<Rightarrow> string \<Rightarrow> fpath list \<Rightarrow> file_metadata option" where
  "find_checksum_in fs csum [] = None"
| "find_checksum_in fs csum (p # ps) =
     (case get_file_metadata fs (path_stem (basename p)) None of
        Inr m \<Rightarrow> if checksum m = csum then Some m else find_checksum_in fs csum ps
      | Inl e \<Rightarrow> find_checksum_in fs csum ps)"

definition find_file_by_checksum :: "filesystem \<Rightarrow> string \<Rightarrow> file_metadata option" where
  "find_file_by_checksum fs csum = find_checksum_in fs csum (iter_metadata_files fs)"

text \<open>
  \<open>get_file_versions\<close> scans \<open>versions/<file_id>\<close> for names ending in \<open>.json\<close>, reads
  the version number from \<open>name[1:-5]\<close> and loads that version's record. A malformed
  number or record is skipped (\<open>ValueError\<close>); a missing record is not caught.
\<close>

definition scandir_versions :: "filesystem \<Rightarrow> string \<Rightarrow> string list" where
  "scandir_versions fs fid =
     [basename p. p \<leftarrow> map fst fs, length p = 3 \<and> take 2 p = [''versions'', fid]]"

fun collect_versions :: "filesystem \<Rightarrow> string \<Rightarrow> string list \<Rightarrow> py_error + file_metadata list" where
  "collect_versions fs fid [] = Inr []"
| "collect_versions fs fid (name # names) =
     (if endswith name ''.json'' then
        (case parse_int (drop 1 (take (length name - 5) name)) of
           None \<Rightarrow> collect_versions fs fid names
         | Some v \<Rightarrow>
             (case get_file_metadata fs fid (Some v) of
                Inl e \<Rightarrow> if e = ValidationError \<or> e = ValueError
                         then collect_versions fs fid names else Inl e
              | Inr m \<Rightarrow>
                  (case collect_versions fs fid names of
                     Inl e \<Rightarrow> Inl e
                   | Inr ms \<Rightarrow> Inr (m # ms))))
      else collect_versions fs fid names)"

definition get_file_versions :: "filesystem \<Rightarrow> string \<Rightarrow> py_error + file_metadata list" where
  "get_file_versions fs fid =
     (case collect_versions fs fid (scandir_versions fs fid) of
        Inl e \<Rightarrow> Inl e
      | Inr versions \<Rightarrow> Inr (sort_key version versions))"

text \<open>\<open>max(xs, default=0)\<close>.\<close>

definition max_default :: "int list \<Rightarrow> int \<Rightarrow> int" where
  "max_default xs d = (case xs of [] \<Rightarrow> d | x # r \<Rightarrow> fold max r x)"

subsection \<open>Upload\<close>

text \<open>The \<open>UploadFile\<close> of a request: its names and the bytes it delivers.\<close>

record upload_file_arg =
  uf_filename :: "string option"
  uf_content_type :: "string option"
  uf_data :: string

text \<open>What successive calls \<open>file.read(n)\<close> return, up to the empty read.\<close>

function chunks :: "nat \<Rightarrow> 'a list \<Rightarrow> 'a list list" where
  "chunks n xs = (if n = 0 \<or> xs = [] then [] else take n xs # chunks n (drop n xs))"
  by pat_completeness auto
termination
  by (relation "measure (\<lambda>(n, xs). length xs)") auto

declare chunks.simps [simp del]

text \<open>
  The copy loop: the running size is checked before each chunk is written. The
  result comes with the bytes written to the temporary file so far.
\<close>

fun write_chunks :: "int \<Rightarrow> string list \<Rightarrow> int \<Rightarrow> string \<Rightarrow> (py_error + int) \<times> string" where
  "write_chunks mx [] file_size written = (Inr file_size, written)"
| "write_chunks mx (c # cs) file_size written =
     (let file_size' = file_size + int (length c)
      in if file_size' > mx then (Inl ValueError, written)
         else write_chunks mx cs file_size' (written @ c))"

definition upload_temp_path :: "string \<Rightarrow> fpath" where
  "upload_temp_path fid = [''tmp'', ''upload_'' @ fid]"

text \<open>
  The calls of \<open>FileMetadata\<close> in \<open>upload_file\<close>: ten keyword arguments, \<open>path\<close> not
  among them.
\<close>

definition upload_metadata_args :: "string \<Rightarrow> string \<Rightarrow> upload_file_arg \<Rightarrow> int \<Rightarrow> string
    \<Rightarrow> (string \<times> jvalue) list option \<Rightarrow> string list option \<Rightarrow> real \<Rightarrow> int
    \<Rightarrow> file_metadata_args" where
  "upload_metadata_args fid effective_filename file file_size csum md tgs now ver =
     \<lparr>arg_file_id = Some fid,
      arg_filename = Some effective_filename,
      arg_content_type = Some (case uf_content_type file of
                                 None \<Rightarrow> ''application/octet-stream''
                               | Some ct \<Rightarrow> if ct = [] then ''application/octet-stream'' else ct),
      arg_size = Some file_size,
      arg_checksum = Some csum,
      arg_metadata = Some (or_default md []),
      arg_tags = Some (or_default tgs []),
      arg_created_at = Some now,
      arg_updated_at = Some now,
      arg_version = Some ver,
      arg_path = None,
      arg_is_deleted = None\<rparr>"

text \<open>
  The two ways \<open>upload_file\<close> stores the temporary file: as the next version of the
  record found under the name, or as a new file under the identifier drawn for the
  call.
\<close>

definition store_new_version :: "real \<Rightarrow> fpath \<Rightarrow> upload_file_arg \<Rightarrow> int \<Rightarrow> string
    \<Rightarrow> (string \<times> jvalue) list option \<Rightarrow> string list option \<Rightarrow> string \<Rightarrow> file_metadata
    \<Rightarrow> fm_state \<Rightarrow> (py_error + file_metadata) \<times> fm_state" where
  "store_new_version now temp_path file file_size csum md tgs effective_filename
       existing_file_by_name s1 =
     (case get_file_versions (files s1) (file_id existing_file_by_name) of
        Inl e \<Rightarrow> (Inl e, s1)
      | Inr versions \<Rightarrow>
          let next_version = max_default (map version versions) 0 + 1;
              version_path = get_file_path (file_id existing_file_by_name) (Some next_version);
              s2 = s1\<lparr>files := fs_rename temp_path version_path (files s1)\<rparr>
          in (case FileMetadata now
                     (upload_metadata_args (file_id existing_file_by_name) effective_filename
                        file file_size csum md tgs now next_version) of
                Inl e \<Rightarrow> (Inl e, s2)
              | Inr file_metadata \<Rightarrow>
                  (case save_metadata (files s2) file_metadata of
                     (Inl e, fs') \<Rightarrow> (Inl e, s2\<lparr>files := fs'\<rparr>)
                   | (Inr u, fs') \<Rightarrow>
                       (Inr file_metadata,
                        publish_event ''file_version_created''
                          [(''file_id'', JStr (file_id existing_file_by_name)),
                           (''filename'', JStr effective_filename),
                           (''version'', JInt next_version),
                           (''size'', JInt file_size)]
                          (s2\<lparr>files := fs'\<rparr>)))))"

definition store_new_file :: "real \<Rightarrow> fpath \<Rightarrow> string \<Rightarrow> upload_file_arg \<Rightarrow> int \<Rightarrow> string
    \<Rightarrow> (string \<times> jvalue) list option \<Rightarrow> string list option \<Rightarrow> string
    \<Rightarrow> fm_state \<Rightarrow> (py_error + file_metadata) \<times> fm_state" where
  "store_new_file now temp_path new_id file file_size csum md tgs effective_filename s1 =
     (let final_path = get_file_path new_id None;
          s2 = s1\<lparr>files := fs_rename temp_path final_path (files s1)\<rparr>
      in (case FileMetadata now
                 (upload_metadata_args new_id effective_filename file file_size csum md tgs now 1) of
            Inl e \<Rightarrow> (Inl e, s2)
          | Inr file_metadata \<Rightarrow>
              (case save_metadata (files s2) file_metadata of
                 (Inl e, fs') \<Rightarrow> (Inl e, s2\<lparr>files := fs'\<rparr>)
               | (Inr u, fs') \<Rightarrow>
                   (Inr file_metadata,
                    publish_event ''file_created''
                      [(''file_id'', JStr new_id),
                       (''filename'', JStr effective_filename),
                       (''size'', JInt file_size)]
                      (s2\<lparr>files := fs'\<rparr>)))))"

text \<open>
  The body of the \<open>try\<close> block of \<open>upload_file\<close>. \<open>new_id\<close> is the \<open>uuid4\<close> drawn for
  this call.
\<close>

definition upload_try :: "fm_config \<Rightarrow> real \<Rightarrow> string \<Rightarrow> upload_file_arg
    \<Rightarrow> (string \<times> jvalue) list option \<Rightarrow> string list option \<Rightarrow> bool \<Rightarrow> string \<Rightarrow> fm_state
    \<Rightarrow> (py_error + file_metadata) \<times> fm_state" where
  "upload_try cfg now new_id file md tgs overwrite effective_filename s =
     (let temp_path = upload_temp_path new_id in
      case write_chunks (max_file_size cfg) (chunks 8192 (uf_data file)) 0 [] of
        (Inl e, written) \<Rightarrow>
          (Inl e, s\<lparr>files := AList.update temp_path (Bytes written) (files s)\<rparr>)
      | (Inr file_size, written) \<Rightarrow>
          let s1 = s\<lparr>files := AList.update temp_path (Bytes written) (files s)\<rparr> in
          (case calculate_checksum cfg (files s1) temp_path of
             Inl e \<Rightarrow> (Inl e, s1)
           | Inr csum \<Rightarrow>
               let existing_file = find_file_by_checksum (files s1) csum in
               if existing_file \<noteq> None \<and> \<not> overwrite
               then (Inr (the existing_file), s1\<lparr>files := AList.delete temp_path (files s1)\<rparr>)
               else
                 let existing_file_by_name =
                       get_file_metadata_by_path (files s1) effective_filename
                 in if existing_file_by_name \<noteq> None \<and> \<not> overwrite
                    then store_new_version now temp_path file file_size csum md tgs
                           effective_filename (the existing_file_by_name) s1
                    else store_new_file now temp_path new_id file file_size csum md tgs
                           effective_filename s1))"

text \<open>
  \<open>upload_file\<close>: the name checks, then the \<open>try\<close> block; on an exception the
  temporary file is removed if it is still there, and the exception is raised again.
\<close>

text \<open>\<open>target_filename or file.filename\<close>.\<close>

definition requested_name :: "string option \<Rightarrow> upload_file_arg \<Rightarrow> string option" where
  "requested_name target_filename file =
     (case target_filename of
        None \<Rightarrow> uf_filename file
      | Some t \<Rightarrow> if t = [] then uf_filename file else Some t)"

definition upload_file :: "fm_config \<Rightarrow> real \<Rightarrow> string \<Rightarrow> upload_file_arg
    \<Rightarrow> (string \<times> jvalue) list option \<Rightarrow> string list option \<Rightarrow> bool \<Rightarrow> string option
    \<Rightarrow> fm_state \<Rightarrow> (py_error + file_metadata) \<times> fm_state" where
  "upload_file cfg now new_id file md tgs overwrite target_filename s =
     (case requested_name target_filename file of
        None \<Rightarrow> (Inl TypeError, s)
      | Some name \<Rightarrow>
          let effective_filename = as_posix name in
          if effective_filename = [] then (Inl ValueError, s)
          else if \<not> validate_extension cfg effective_filename then (Inl ValueError, s)
          else
            (case upload_try cfg now new_id file md tgs overwrite effective_filename s of
               (Inr r, s') \<Rightarrow> (Inr r, s')
             | (Inl e, s') \<Rightarrow>
                 (Inl e,
                  if has_key (files s') (upload_temp_path new_id)
                  then s'\<lparr>files := AList.delete (upload_temp_path new_id) (files s')\<rparr>
                  else s')))"

subsection \<open>Scan and register\<close>

definition known_file_ids :: "filesystem \<Rightarrow> string list" where
  "known_file_ids fs =
     List.map_filter
       (\<lambda>p. case map_of fs p of
               None \<Rightarrow> None
             | Some c \<Rightarrow> (case parse_raw c of Inl e \<Rightarrow> None | Inr m \<Rightarrow> Some (file_id m)))
       (iter_metadata_files fs)"

definition is_known :: "filesystem \<Rightarrow> string list \<Rightarrow> string \<Rightarrow> bool" where
  "is_known fs known relative_file_path =
     list_ex
       (\<lambda>known_meta_id.
          case get_file_metadata fs known_meta_id None of
            Inl e \<Rightarrow> False
          | Inr known_meta \<Rightarrow>
              lower (replace_char (CHR 0x5C) CHR ''/'' (filename known_meta))
                = lower relative_file_path)
       known"

text \<open>The call of \<open>FileMetadata\<close> in the scan: eleven keyword arguments, \<open>path\<close> not among them.\<close>

definition scan_metadata_args :: "fm_config \<Rightarrow> string \<Rightarrow> string \<Rightarrow> fcontent \<Rightarrow> string
    \<Rightarrow> real \<Rightarrow> real \<Rightarrow> file_metadata_args" where
  "scan_metadata_args cfg new_file_id relative_file_path c csum ctime mtime =
     \<lparr>arg_file_id = Some new_file_id,
      arg_filename = Some relative_file_path,
      arg_content_type = Some (case magic_from_file cfg c of
                                 None \<Rightarrow> ''application/octet-stream''
                               | Some ct \<Rightarrow> ct),
      arg_size = Some (int (length (content_bytes cfg c))),
      arg_checksum = Some csum,
      arg_metadata = Some [(''source'', JStr ''scanned_import'')],
      arg_tags = Some [''imported''],
      arg_created_at = Some ctime,
      arg_updated_at = Some mtime,
      arg_version = Some 1,
      arg_path = None,
      arg_is_deleted = Some False\<rparr>"

text \<open>
  The \<open>try\<close> block that registers one file found without a record. \<open>ctime\<close> and
  \<open>mtime\<close> stand for the file's times as \<open>stat\<close> reports them; the event carries
  the new record.
\<close>

definition register_file :: "fm_config \<Rightarrow> real \<Rightarrow> real \<Rightarrow> string \<Rightarrow> fpath \<Rightarrow> fm_state
    \<Rightarrow> (py_error + unit) \<times> fm_state" where
  "register_file cfg ctime mtime new_file_id file_path s =
     (case map_of (files s) file_path of
        None \<Rightarrow> (Inl FileNotFoundError, s)
      | Some c \<Rightarrow>
          (case calculate_checksum cfg (files s) file_path of
             Inl e \<Rightarrow> (Inl e, s)
           | Inr csum \<Rightarrow>
               (case FileMetadata mtime
                       (scan_metadata_args cfg new_file_id (join_with ''/'' file_path) c csum
                          ctime mtime) of
                  Inl e \<Rightarrow> (Inl e, s)
                | Inr new_metadata \<Rightarrow>
                    (case save_metadata (files s) new_metadata of
                       (Inl e, fs') \<Rightarrow> (Inl e, s\<lparr>files := fs'\<rparr>)
                     | (Inr u, fs') \<Rightarrow>
                         let s1 = s\<lparr>files := fs'\<rparr>;
                             target_file_path = get_file_path new_file_id None;
                             s2 = (if file_path \<noteq> target_file_path
                                   then s1\<lparr>files := AList.update target_file_path c (files s1)\<rparr>
                                   else s1)
                         in (Inr (),
                             publish_event ''file_registered''
                               [(''file_id'', JStr (file_id new_metadata)),
                                (''filename'', JStr (filename new_metadata)),
                                (''checksum'', JStr (checksum new_metadata)),
                                (''size'', JInt (fm_size new_metadata))] s2)))))"

text \<open>
  The walk over the files found at the start of the scan. \<open>uuid4\<close> is the supply of
  fresh identifiers, \<open>i\<close> the number drawn so far. An exception while registering a
  file is logged and the walk goes on.
\<close>

fun scan_loop :: "fm_config \<Rightarrow> real \<Rightarrow> real \<Rightarrow> (nat \<Rightarrow> string) \<Rightarrow> string list \<Rightarrow> fpath list \<Rightarrow> nat \<Rightarrow> nat
    \<Rightarrow> fm_state \<Rightarrow> nat \<times> fm_state" where
  "scan_loop cfg ctime mtime uuid4 known [] registered_count i s = (registered_count, s)"
| "scan_loop cfg ctime mtime uuid4 known (file_path # rest) registered_count i s =
     (if path_suffix (basename file_path) = ''.meta''
      then scan_loop cfg ctime mtime uuid4 known rest registered_count i s
      else if is_known (files s) known (join_with ''/'' file_path)
      then scan_loop cfg ctime mtime uuid4 known rest registered_count i s
      else
        (case register_file cfg ctime mtime (uuid4 i) file_path s of
           (Inr u, s') \<Rightarrow>
             scan_loop cfg ctime mtime uuid4 known rest (registered_count + 1) (i + 1) s'
         | (Inl e, s') \<Rightarrow>
             scan_loop cfg ctime mtime uuid4 known rest registered_count (i + 1) s'))"

definition scan_and_register_existing_files :: "fm_config \<Rightarrow> real \<Rightarrow> real \<Rightarrow> (nat \<Rightarrow> string) \<Rightarrow> fm_state
    \<Rightarrow> (py_error + nat) \<times> fm_state" where
  "scan_and_register_existing_files cfg ctime mtime uuid4 s =
     (case scan_loop cfg ctime mtime uuid4 (known_file_ids (files s)) (map fst (files s)) 0 0 s of
        (registered_count, s') \<Rightarrow> (Inr registered_count, s'))"

subsection \<open>Example data\<close>

text \<open>
  A configuration, a record and two stores for the examples. The digest is a
  stand-in for SHA-256; the examples depend only on equal bytes having equal
  digests.
\<close>

definition example_config :: fm_config where
  "example_config =
     \<lparr>max_file_size = MAX_FILE_SIZE, allowed_extensions = ALLOWED_EXTENSIONS,
      sha256 = (\<lambda>b. ''sha-'' @ b), to_json = (\<lambda>m. file_id m),
      magic_from_file = (\<lambda>c. None)\<rparr>"

definition example_record :: file_metadata where
  "example_record =
     \<lparr>file_id = ''f1'', filename = ''docs/report.txt'', content_type = ''text/plain'',
      fm_size = 3, checksum = ''sha-abc'', fm_metadata = [], tags = [],
      fm_created_at = 1, fm_updated_at = 1, version = 1, path = ''docs/report.txt'',
      is_deleted = False, deleted_at = None, created_by = None, updated_by = None\<rparr>"

text \<open>The record as the current record of \<open>f1\<close>, with its content.\<close>

definition example_store :: fm_state where
  "example_store =
     \<lparr>files = [([''metadata'', ''f1.json''], MetaJson example_record),
               ([''f1''], Bytes ''abc'')],
      published = []\<rparr>"

text \<open>
  The record filed, with its content, only under the name that
  \<open>_get_metadata_path\<close> gives for its version.
\<close>

definition versioned_only_store :: fm_state where
  "versioned_only_store =
     \<lparr>files = [([''metadata'', ''f1_v1.json''], MetaJson example_record),
               ([''versions'', ''f1'', ''v1''], Bytes ''abc'')],
      published = []\<rparr>"

text \<open>
  A current record that is marked deleted, beside the record of version \<open>1\<close>,
  which is not.
\<close>

definition deleted_current_store :: fm_state where
  "deleted_current_store =
     \<lparr>files = [([''metadata'', ''f1.json''],
                MetaJson (example_record\<lparr>version := 2, is_deleted := True\<rparr>)),
               ([''metadata'', ''f1_v1.json''], MetaJson example_record)],
      published = []\<rparr>"


text \<open>A store with one file that has no record.\<close>

definition unregistered_store :: fm_state where
  "unregistered_store = \<lparr>files = [([''notes.txt''], Bytes ''hello'')], published = []\<rparr>"

definition example_upload :: "string \<Rightarrow> upload_file_arg" where
  "example_upload bytes =
     \<lparr>uf_filename = Some ''docs/report.txt'', uf_content_type = Some ''text/plain'',
      uf_data = bytes\<rparr>"

section \<open>Properties of the context manager\<close>

subsection \<open>Dictionaries and state fields\<close>

lemma has_key_update: "has_key (AList.update k v d) k' = (k' = k \<or> has_key d k')"
  by (simp add: has_key_def update_conv')

lemma has_key_delete: "has_key (AList.delete k d) k' = (k' \<noteq> k \<and> has_key d k')"
  by (simp add: has_key_def delete_conv')

lemma map_of_py_del:
  "map_of (if has_key d k then AList.delete k d else d) = (map_of d)(k := None)"
  by (auto simp: has_key_def delete_conv' fun_eq_iff)

lemma update_cache_fields:
  assumes "update_cache cfg now key v s = Inr s'"
  shows "context_store s' = context_store s"
    and "ttl_store s' = ttl_store s"
    and "lock_held s' = lock_held s"
    and "notified s' = notified s"
  using assms by (auto simp: update_cache_def split: sum.splits)

lemma float_add_int_in_range:
  "\<bar>n\<bar> < FLOAT_INT_LIMIT \<Longrightarrow>
   float_add_int cfg x n = Inr (round64 cfg (x + round64 cfg (real_of_int n)))"
  by (simp add: float_add_int_def float_of_int_def)

lemma float_add_int_overflow:
  "FLOAT_INT_LIMIT \<le> \<bar>n\<bar> \<Longrightarrow> float_add_int cfg x n = Inl OverflowError"
  by (simp add: float_add_int_def float_of_int_def)

lemma update_cache_in_range:
  "\<bar>cache_ttl cfg\<bar> < FLOAT_INT_LIMIT \<Longrightarrow> \<exists>s'. update_cache cfg now key v s = Inr s'"
  by (simp add: update_cache_def float_add_int_in_range)

lemma delete_from_cache_fields [simp]:
  "context_store (delete_from_cache key s) = context_store s"
  "ttl_store (delete_from_cache key s) = ttl_store s"
  "lock_held (delete_from_cache key s) = lock_held s"
  "notified (delete_from_cache key s) = notified s"
  by (simp_all add: delete_from_cache_def)

lemma notify_subscribers_fields [simp]:
  "context_store (notify_subscribers key ev s) = context_store s"
  "ttl_store (notify_subscribers key ev s) = ttl_store s"
  "lock_held (notify_subscribers key ev s) = lock_held s"
  "notified (notify_subscribers key ev s) = notified s @ [(key, ev)]"
  by (simp_all add: notify_subscribers_def)

subsection \<open>set\<close>

lemma set_context_rejected:
  "ContextItem key v ttl (case metadata of None \<Rightarrow> [] | Some m \<Rightarrow> m) = Inl e
   \<Longrightarrow> set_context cfg now key v ttl metadata notify s = (Returns False, s)"
  by (simp add: set_context_def)

lemma ContextItem_Inr:
  "ContextItem key v ttl md = Inr item \<Longrightarrow>
     item = \<lparr>ci_key = key, ci_value = v, ci_ttl = ttl, ci_metadata = md\<rparr> \<and>
     (\<forall>t. ttl = Some t \<longrightarrow> t \<ge> 1)"
  by (auto simp: ContextItem_def split: option.splits if_splits)

lemma ContextItem_Inl:
  "ContextItem key v ttl md = Inl e \<Longrightarrow> \<exists>t. ttl = Some t \<and> t < 1"
  by (auto simp: ContextItem_def split: option.splits if_splits)

lemma set_ttl_fields:
  assumes "set_ttl cfg now key ttl s1 = Inr s2"
  shows "context_store s2 = context_store s1"
    and "lock_held s2 = lock_held s1"
    and "notified s2 = notified s1"
    and "\<forall>k. has_key (ttl_store s2) k \<longrightarrow> k = key \<or> has_key (ttl_store s1) k"
  using assms
  by (auto simp: set_ttl_def has_key_update has_key_delete
           split: option.splits if_splits sum.splits)

lemma set_ttl_in_range:
  assumes "\<forall>t. ttl = Some t \<longrightarrow> 1 \<le> t \<and> \<bar>t\<bar> < FLOAT_INT_LIMIT"
  shows "\<exists>s2. set_ttl cfg now key ttl s1 = Inr s2 \<and>
           context_store s2 = context_store s1 \<and>
           map_of (ttl_store s2) =
             (case ttl of
                None \<Rightarrow> (map_of (ttl_store s1))(key := None)
              | Some t \<Rightarrow> (map_of (ttl_store s1))(key \<mapsto>
                            round64 cfg (now + round64 cfg (real_of_int t))))"
proof (cases ttl)
  case None
  then show ?thesis
    by (auto simp: set_ttl_def delete_conv' has_key_def fun_eq_iff)
next
  case (Some t)
  with assms have "t > 0" "\<bar>t\<bar> < FLOAT_INT_LIMIT" by auto
  with Some show ?thesis
    by (simp add: set_ttl_def float_add_int_in_range update_conv')
qed


text \<open>
  A call that passes validation, with the lock free and with \<open>ttl\<close> and \<open>cache_ttl\<close>
  inside the range of a \<open>float\<close>, returns \<open>True\<close>, stores the value, and sets the
  key's expiry to the rounded sum or removes it.
\<close>

lemma set_context_within_float_range:
  assumes "ContextItem key v ttl (case metadata of None \<Rightarrow> [] | Some m \<Rightarrow> m) = Inr item"
    and "\<not> lock_held s"
    and "\<forall>t. ttl = Some t \<longrightarrow> \<bar>t\<bar> < FLOAT_INT_LIMIT"
    and "\<bar>cache_ttl cfg\<bar> < FLOAT_INT_LIMIT"
  shows "fst (set_context cfg now key v ttl metadata notify s) = Returns True"
    and "map_of (context_store (snd (set_context cfg now key v ttl metadata notify s))) =
           (map_of (context_store s))(key \<mapsto>
              \<lparr>item_value = v, item_metadata = (case metadata of None \<Rightarrow> [] | Some m \<Rightarrow> m),
               created_at = now, updated_at = now\<rparr>)"
    and "map_of (ttl_store (snd (set_context cfg now key v ttl metadata notify s))) =
           (case ttl of
              None \<Rightarrow> (map_of (ttl_store s))(key := None)
            | Some t \<Rightarrow> (map_of (ttl_store s))(key \<mapsto>
                          round64 cfg (now + round64 cfg (real_of_int t))))"
proof -
  from ContextItem_Inr[OF assms(1)]
  have item: "item = \<lparr>ci_key = key, ci_value = v, ci_ttl = ttl,
                       ci_metadata = (case metadata of None \<Rightarrow> [] | Some m \<Rightarrow> m)\<rparr>"
    and pos: "\<forall>t. ttl = Some t \<longrightarrow> t \<ge> 1" by simp_all
  define s1 where "s1 = s\<lparr>context_store :=
                        AList.update key
                          \<lparr>item_value = ci_value item, item_metadata = ci_metadata item,
                           created_at = now, updated_at = now\<rparr>
                          (context_store s)\<rparr>"
  from pos assms(3) have "\<forall>t. ttl = Some t \<longrightarrow> 1 \<le> t \<and> \<bar>t\<bar> < FLOAT_INT_LIMIT" by simp
  from set_ttl_in_range[OF this, of cfg now key s1] obtain s2 where
    s2: "set_ttl cfg now key ttl s1 = Inr s2"
    and c2: "context_store s2 = context_store s1"
    and t2: "map_of (ttl_store s2) =
             (case ttl of
                None \<Rightarrow> (map_of (ttl_store s1))(key := None)
              | Some t \<Rightarrow> (map_of (ttl_store s1))(key \<mapsto>
                            round64 cfg (now + round64 cfg (real_of_int t))))"
    by blast
  from update_cache_in_range[OF assms(4), of now key "ci_value item" s2] obtain s3 where
    s3: "update_cache cfg now key (ci_value item) s2 = Inr s3" by blast
  have r: "set_context cfg now key v ttl metadata notify s =
             (Returns True,
              if notify then notify_subscribers key (SetEvent key v metadata) s3 else s3)"
    using assms(1,2) s2 s3 by (simp add: set_context_def Let_def s1_def)
  show "fst (set_context cfg now key v ttl metadata notify s) = Returns True"
    by (simp add: r)
  show "map_of (context_store (snd (set_context cfg now key v ttl metadata notify s))) =
           (map_of (context_store s))(key \<mapsto>
              \<lparr>item_value = v, item_metadata = (case metadata of None \<Rightarrow> [] | Some m \<Rightarrow> m),
               created_at = now, updated_at = now\<rparr>)"
    using update_cache_fields(1)[OF s3] c2 item by (simp add: r s1_def update_conv')
  show "map_of (ttl_store (snd (set_context cfg now key v ttl metadata notify s))) =
           (case ttl of
              None \<Rightarrow> (map_of (ttl_store s))(key := None)
            | Some t \<Rightarrow> (map_of (ttl_store s))(key \<mapsto>
                          round64 cfg (now + round64 cfg (real_of_int t))))"
  proof -
    have a: "ttl_store s1 = ttl_store s" by (simp add: s1_def)
    have "ttl_store (snd (set_context cfg now key v ttl metadata notify s)) = ttl_store s2"
      using update_cache_fields(2)[OF s3] by (simp add: r)
    with t2 a show ?thesis by (simp split: option.splits)
  qed
qed

text \<open>
  Whatever a call of \<open>set\<close> does with the lock free, it returns, gives the lock
  back, and changes the TTL index at most at its key, which it leaves in the value
  map unless validation refused the call.
\<close>

lemma set_context_result:
  assumes "\<not> lock_held s"
  shows "set_context cfg now key v ttl metadata notify s = (Returns False, s) \<or>
         (\<exists>b s'. set_context cfg now key v ttl metadata notify s = (Returns b, s') \<and>
            \<not> lock_held s' \<and>
            has_key (context_store s') key \<and>
            (\<forall>k. has_key (context_store s) k \<longrightarrow> has_key (context_store s') k) \<and>
            (\<forall>k. has_key (ttl_store s') k \<longrightarrow> k = key \<or> has_key (ttl_store s) k) \<and>
            (\<not> notify \<longrightarrow> notified s' = notified s))"
proof (cases "ContextItem key v ttl (case metadata of None \<Rightarrow> [] | Some m \<Rightarrow> m)")
  case (Inl e)
  then show ?thesis by (simp add: set_context_rejected)
next
  case (Inr item)
  define s1 where "s1 = s\<lparr>context_store :=
                        AList.update key
                          \<lparr>item_value = ci_value item, item_metadata = ci_metadata item,
                           created_at = now, updated_at = now\<rparr>
                          (context_store s)\<rparr>"
  have p1: "\<not> lock_held s1" "has_key (context_store s1) key"
    "\<forall>k. has_key (context_store s) k \<longrightarrow> has_key (context_store s1) k"
    "ttl_store s1 = ttl_store s" "notified s1 = notified s"
    using assms by (simp_all add: s1_def has_key_update)
  show ?thesis
  proof (cases "set_ttl cfg now key ttl s1")
    case (Inl e)
    with Inr assms have "set_context cfg now key v ttl metadata notify s = (Returns False, s1)"
      by (simp add: set_context_def Let_def s1_def)
    with p1 show ?thesis by auto
  next
    case s2: (Inr s2)
    from set_ttl_fields[OF s2] p1
    have p2: "\<not> lock_held s2" "has_key (context_store s2) key"
      "\<forall>k. has_key (context_store s) k \<longrightarrow> has_key (context_store s2) k"
      "\<forall>k. has_key (ttl_store s2) k \<longrightarrow> k = key \<or> has_key (ttl_store s) k"
      "notified s2 = notified s"
      by simp_all
    show ?thesis
    proof (cases "update_cache cfg now key (ci_value item) s2")
      case (Inl e)
      with Inr s2 assms have "set_context cfg now key v ttl metadata notify s = (Returns False, s2)"
        by (simp add: set_context_def Let_def s1_def)
      with p2 show ?thesis by auto
    next
      case s3: (Inr s3)
      from update_cache_fields[OF s3] p2
      have p3: "\<not> lock_held s3" "has_key (context_store s3) key"
        "\<forall>k. has_key (context_store s) k \<longrightarrow> has_key (context_store s3) k"
        "\<forall>k. has_key (ttl_store s3) k \<longrightarrow> k = key \<or> has_key (ttl_store s) k"
        "notified s3 = notified s"
        by simp_all
      from Inr s2 s3 assms
      have r: "set_context cfg now key v ttl metadata notify s =
            (Returns True,
             if notify then notify_subscribers key (SetEvent key v metadata) s3 else s3)"
        by (simp add: set_context_def Let_def s1_def)
      show ?thesis
      proof (cases notify)
        case True
        with r have "set_context cfg now key v ttl metadata notify s =
            (Returns True, notify_subscribers key (SetEvent key v metadata) s3)" by simp
        moreover have "\<not> lock_held (notify_subscribers key (SetEvent key v metadata) s3)"
          "has_key (context_store (notify_subscribers key (SetEvent key v metadata) s3)) key"
          "\<forall>k. has_key (context_store s) k \<longrightarrow>
               has_key (context_store (notify_subscribers key (SetEvent key v metadata) s3)) k"
          "\<forall>k. has_key (ttl_store (notify_subscribers key (SetEvent key v metadata) s3)) k \<longrightarrow>
               k = key \<or> has_key (ttl_store s) k"
          using p3 by simp_all
        ultimately show ?thesis using True by blast
      next
        case False
        with r have "set_context cfg now key v ttl metadata notify s = (Returns True, s3)" by simp
        with p3 show ?thesis by blast
      qed
    qed
  qed
qed

subsection \<open>An accepted time to live beyond the range of a float\<close>

lemmas cm_eval = set_context_def set_ttl_def ContextItem_def init_state_def default_config_def
          Let_def float_add_int_def float_of_int_def FLOAT_INT_LIMIT_def
          update_cache_def evict_oldest_def notify_subscribers_def delete_context_def
          delete_context_internal_def has_key_def get_context_keyed_def get_from_cache_def
          get_context_def bound_get_context_def class_body_get_context_def list_keys_def
          delete_from_cache_def bulk_operation_def apply_bulk_op_def spec_example_ops_def

text \<open>
  Claim C8. \<open>ContextItem\<close> bounds \<open>ttl\<close> from below only, so \<open>ttl = 2 ^ 1024\<close> passes
  validation. The call stores the value and then fails where it adds \<open>ttl\<close> to the
  clock reading: it returns failure although validation passed, the value stays
  stored, and no expiry, cache entry or event is made. On a key that has an
  expiry, the value is replaced and the earlier expiry stays.
\<close>

theorem set_context_overflowing_ttl_stores_then_fails:
  "ContextItem ''k'' (JInt 7) (Some (2 ^ 1024)) [] =
     Inr \<lparr>ci_key = ''k'', ci_value = JInt 7, ci_ttl = Some (2 ^ 1024), ci_metadata = []\<rparr> \<and>
   set_context default_config 10 ''k'' (JInt 7) (Some (2 ^ 1024)) None True init_state =
     (Returns False,
      init_state\<lparr>context_store :=
                    [(''k'', \<lparr>item_value = JInt 7, item_metadata = [],
                              created_at = 10, updated_at = 10\<rparr>)]\<rparr>) \<and>
   map_of (ttl_store (snd (set_context default_config 10 ''k'' (JInt 7) (Some 5) None True
      init_state))) ''k'' = Some 15 \<and>
   fst (set_context default_config 20 ''k'' (JInt 8) (Some (2 ^ 1024)) None True
      (snd (set_context default_config 10 ''k'' (JInt 7) (Some 5) None True init_state)))
     = Returns False \<and>
   map_of (context_store (snd (set_context default_config 20 ''k'' (JInt 8) (Some (2 ^ 1024))
      None True
      (snd (set_context default_config 10 ''k'' (JInt 7) (Some 5) None True init_state))))) ''k''
     = Some \<lparr>item_value = JInt 8, item_metadata = [], created_at = 20, updated_at = 20\<rparr> \<and>
   map_of (ttl_store (snd (set_context default_config 20 ''k'' (JInt 8) (Some (2 ^ 1024))
      None True
      (snd (set_context default_config 10 ''k'' (JInt 7) (Some 5) None True init_state))))) ''k''
     = Some 15"
  by (simp add: cm_eval)

theorem set_context_overflowing_ttl_stores_then_fails_witness:
  "FLOAT_INT_LIMIT \<le> \<bar>2 ^ 1024\<bar> \<and>
   fst (set_context default_config 10 ''k'' (JInt 7) (Some (2 ^ 1024)) None True init_state)
     = Returns False \<and>
   has_key (context_store
      (snd (set_context default_config 10 ''k'' (JInt 7) (Some (2 ^ 1024)) None True init_state)))
      ''k''"
proof -
  have "FLOAT_INT_LIMIT \<le> \<bar>2 ^ 1024\<bar>" by (simp add: FLOAT_INT_LIMIT_def)
  with set_context_overflowing_ttl_stores_then_fails show ?thesis
    by (simp add: has_key_def)
qed

subsection \<open>Sequences of set and delete\<close>

lemma apply_op_keys:
  assumes "\<not> lock_held s"
    and "\<forall>k. has_key (ttl_store s) k \<longrightarrow> has_key (context_store s) k"
  shows "\<not> lock_held (apply_op cfg op s) \<and>
         (\<forall>k. has_key (ttl_store (apply_op cfg op s)) k \<longrightarrow>
              has_key (context_store (apply_op cfg op s)) k)"
proof (cases op)
  case (OpSet now key v ttl metadata notify)
  from set_context_result[OF assms(1), of cfg now key v ttl metadata notify]
  show ?thesis
  proof
    assume "set_context cfg now key v ttl metadata notify s = (Returns False, s)"
    with OpSet assms show ?thesis by simp
  next
    assume "\<exists>b s'. set_context cfg now key v ttl metadata notify s = (Returns b, s') \<and>
            \<not> lock_held s' \<and>
            has_key (context_store s') key \<and>
            (\<forall>k. has_key (context_store s) k \<longrightarrow> has_key (context_store s') k) \<and>
            (\<forall>k. has_key (ttl_store s') k \<longrightarrow> k = key \<or> has_key (ttl_store s) k) \<and>
            (\<not> notify \<longrightarrow> notified s' = notified s)"
    then obtain b s' where r: "set_context cfg now key v ttl metadata notify s = (Returns b, s')"
      and p: "\<not> lock_held s'" "has_key (context_store s') key"
        "\<forall>k. has_key (context_store s) k \<longrightarrow> has_key (context_store s') k"
        "\<forall>k. has_key (ttl_store s') k \<longrightarrow> k = key \<or> has_key (ttl_store s) k"
      by blast
    from OpSet r have "apply_op cfg op s = s'" by simp
    with p assms(2) show ?thesis by blast
  qed
next
  case (OpDelete key)
  show ?thesis
  proof (cases "has_key (context_store s) key")
    case True
    with OpDelete assms show ?thesis
      by (auto simp: delete_context_def delete_context_internal_def Let_def has_key_def
            delete_conv' split: option.splits if_splits)
  next
    case False
    with OpDelete assms show ?thesis
      by (auto simp: delete_context_def delete_context_internal_def Let_def has_key_def
               split: option.splits)
  qed
qed

text \<open>
  After any sequence of \<open>set\<close> and \<open>delete\<close> steps from the initial store, every key
  of the TTL index is a key of the value map.
\<close>

lemma run_ops_keys:
  "\<not> lock_held s \<Longrightarrow>
   \<forall>k. has_key (ttl_store s) k \<longrightarrow> has_key (context_store s) k \<Longrightarrow>
   \<not> lock_held (run_ops cfg ops s) \<and>
   (\<forall>k. has_key (ttl_store (run_ops cfg ops s)) k \<longrightarrow>
        has_key (context_store (run_ops cfg ops s)) k)"
proof (induction ops arbitrary: s)
  case Nil
  then show ?case by simp
next
  case (Cons op ops)
  from apply_op_keys[OF Cons.prems, of cfg op]
  have "\<not> lock_held (apply_op cfg op s)"
    and "\<forall>k. has_key (ttl_store (apply_op cfg op s)) k \<longrightarrow>
             has_key (context_store (apply_op cfg op s)) k"
    by blast+
  from Cons.IH[OF this] show ?case by simp
qed

lemma ttl_keys_are_store_keys:
  "has_key (ttl_store (run_ops cfg ops init_state)) k \<Longrightarrow>
   has_key (context_store (run_ops cfg ops init_state)) k"
proof -
  have "\<not> lock_held init_state"
    and "\<forall>k. has_key (ttl_store init_state) k \<longrightarrow> has_key (context_store init_state) k"
    by (simp_all add: init_state_def has_key_def)
  from run_ops_keys[OF this, of cfg ops] show
    "has_key (ttl_store (run_ops cfg ops init_state)) k \<Longrightarrow>
     has_key (context_store (run_ops cfg ops init_state)) k"
    by blast
qed



subsection \<open>Reads of an expired entry\<close>

lemma list_keys_excludes_expired:
  "map_of (ttl_store s) key = Some e \<Longrightarrow> e < now \<Longrightarrow> list_keys now pre s = (Returns ks, s')
   \<Longrightarrow> key \<notin> set ks"
  by (auto simp: list_keys_def has_key_def split: if_splits)

text \<open>
  Claim C3. An entry set at instant \<open>0\<close> with \<open>ttl = 1\<close> has its expiry in the past at
  instant \<open>2\<close>, and \<open>list_keys\<close> leaves it out. The reads by key do not treat it as
  absent: the definition of \<open>get_context\<close> with a key returns the value from the
  cache when the cache is used, and waits for ever on the lock it holds itself when
  the cache is not used; and the method the class binds to the name is the later
  one, which takes no key, so the call itself raises.
\<close>

theorem get_context_expired_entry_not_absent:
  "fst (get_context_keyed default_config 2 ''k'' True
          (snd (set_context default_config 0 ''k'' (JStr ''v'') (Some 1) None True init_state)))
     = Returns (JStr ''v'') \<and>
   fst (get_context_keyed default_config 2 ''k'' False
          (snd (set_context default_config 0 ''k'' (JStr ''v'') (Some 1) None True init_state)))
     = Blocks \<and>
   fst (get_context default_config 2 ''k'' True
          (snd (set_context default_config 0 ''k'' (JStr ''v'') (Some 1) None True init_state)))
     = Raises TypeError \<and>
   fst (get_context default_config 2 ''k'' False
          (snd (set_context default_config 0 ''k'' (JStr ''v'') (Some 1) None True init_state)))
     = Raises TypeError \<and>
   map_of (ttl_store
          (snd (set_context default_config 0 ''k'' (JStr ''v'') (Some 1) None True init_state))) ''k''
     = Some 1 \<and>
   fst (list_keys 2 []
          (snd (set_context default_config 0 ''k'' (JStr ''v'') (Some 1) None True init_state)))
     = Returns []"
  by (simp add: cm_eval)

theorem get_context_expired_entry_not_absent_witness:
  "map_of (ttl_store
          (snd (set_context default_config 0 ''k'' (JStr ''v'') (Some 1) None True init_state))) ''k''
     = Some 1 \<and>
   (1::real) < 2 \<and>
   fst (list_keys 2 []
          (snd (set_context default_config 0 ''k'' (JStr ''v'') (Some 1) None True init_state)))
     = Returns [] \<and>
   fst (get_context_keyed default_config 2 ''k'' True
          (snd (set_context default_config 0 ''k'' (JStr ''v'') (Some 1) None True init_state)))
     = Returns (JStr ''v'') \<and>
   fst (get_context_keyed default_config 2 ''k'' False
          (snd (set_context default_config 0 ''k'' (JStr ''v'') (Some 1) None True init_state)))
     = Blocks"
  using get_context_expired_entry_not_absent by simp

subsection \<open>Snapshot round trip\<close>






lemma persist_data_refused:
  "\<not> lock_held s \<Longrightarrow> orjson_roundtrip cfg (snapshot_document now s) = None \<Longrightarrow>
   persist_data cfg now s d = (Returns (), d)"
  by (simp add: persist_data_def)



text \<open>
  A value with an \<open>int\<close> outside 64 bits: the serializer raises, the handler logs,
  no snapshot is written, and a restart finds nothing to load.
\<close>

lemma persist_unserializable_value_example:
  "persist_data default_config 3
     (snd (set_context default_config 0 ''k'' (JInt (2 ^ 64)) None None True init_state))
     \<lparr>context_tmp = None, context_json = None\<rparr>
     = (Returns (), \<lparr>context_tmp = None, context_json = None\<rparr>) \<and>
   load_persisted_data default_config \<lparr>context_tmp = None, context_json = None\<rparr> init_state
     = Some (Returns (), init_state)"
  by (simp add: cm_eval persist_data_def load_persisted_data_def snapshot_document_def
        store_to_json_def ttl_to_json_def item_to_json_def)

subsection \<open>Bulk operations\<close>

lemma set_context_free:
  assumes "\<not> lock_held s"
  shows "fst (set_context cfg now key v ttl metadata notify s) \<noteq> Blocks"
    and "\<not> lock_held (snd (set_context cfg now key v ttl metadata notify s))"
    and "notified (snd (set_context cfg now key v ttl metadata False s)) = notified s"
proof -
  from set_context_result[OF assms, of cfg now key v ttl metadata notify] assms
  show "fst (set_context cfg now key v ttl metadata notify s) \<noteq> Blocks"
    and "\<not> lock_held (snd (set_context cfg now key v ttl metadata notify s))"
    by auto
  from set_context_result[OF assms, of cfg now key v ttl metadata False]
  show "notified (snd (set_context cfg now key v ttl metadata False s)) = notified s"
    by auto
qed

lemma delete_context_internal_free:
  assumes "\<not> lock_held s"
  shows "fst (delete_context_internal key notify s) \<noteq> Blocks"
    and "\<not> lock_held (snd (delete_context_internal key notify s))"
    and "notified (snd (delete_context_internal key False s)) = notified s"
  using assms
  by (auto simp: delete_context_internal_def Let_def split: option.splits)

lemma apply_bulk_op_free:
  assumes "\<not> lock_held s"
  shows "fst (apply_bulk_op cfg now op s) \<noteq> Blocks"
    and "\<not> lock_held (snd (apply_bulk_op cfg now op s))"
    and "notified (snd (apply_bulk_op cfg now op s)) = notified s"
  using assms set_context_free[OF assms] delete_context_internal_free[OF assms]
  by (auto simp: apply_bulk_op_def split: option.splits)

lemma count_ok_Nil: "count_ok [] = 0"
  by (simp add: count_ok_def)

lemma count_ok_Cons:
  "count_ok ((op, out) # rest) = (if out = Returns True then 1 else 0) + count_ok rest"
  by (simp add: count_ok_def)

lemma count_ok_le: "count_ok trace \<le> length trace"
  by (simp add: count_ok_def)

lemma attempt_all_trace:
  "\<not> lock_held s \<Longrightarrow> attempt_all cfg now ops s = (trace, s1) \<Longrightarrow>
     map fst trace = ops \<and> notified s1 = notified s \<and> \<not> lock_held s1"
proof (induction ops arbitrary: s trace s1)
  case Nil
  then show ?case by simp
next
  case (Cons op ops)
  obtain out sa where a: "apply_bulk_op cfg now op s = (out, sa)" by (cases "apply_bulk_op cfg now op s")
  obtain rest sb where b: "attempt_all cfg now ops sa = (rest, sb)" by (cases "attempt_all cfg now ops sa")
  from apply_bulk_op_free[OF Cons.prems(1), of cfg now op] a
  have fa: "\<not> lock_held sa" and na: "notified sa = notified s" by simp_all
  from Cons.IH[OF fa b] have "map fst rest = ops \<and> notified sb = notified sa \<and> \<not> lock_held sb" .
  with Cons.prems(2) a b na show ?case by auto
qed

lemma bulk_loop_all:
  "\<not> lock_held s \<Longrightarrow> attempt_all cfg now ops s = (trace, s1) \<Longrightarrow>
   bulk_loop cfg now False ops r s =
     (Returns \<lparr>succeeded = succeeded r + count_ok trace,
               failed = failed r + (length trace - count_ok trace),
               errors = errors r @ error_entries trace\<rparr>, s1)"
proof (induction ops arbitrary: s trace s1 r)
  case Nil
  then show ?case by (simp add: count_ok_Nil)
next
  case (Cons op ops)
  obtain out sa where a: "apply_bulk_op cfg now op s = (out, sa)" by (cases "apply_bulk_op cfg now op s")
  obtain rest sb where b: "attempt_all cfg now ops sa = (rest, sb)" by (cases "attempt_all cfg now ops sa")
  from apply_bulk_op_free[OF Cons.prems(1), of cfg now op] a
  have fa: "\<not> lock_held sa" and nb: "out \<noteq> Blocks" by simp_all
  from Cons.prems(2) a b have tr: "trace = (op, out) # rest" and s1: "s1 = sb" by auto
  have le: "count_ok rest \<le> length rest" by (rule count_ok_le)
  show ?case
  proof (cases out)
    case (Returns success)
    show ?thesis
    proof (cases success)
      case True
      with Returns a tr s1 Cons.IH[OF fa b, of "r\<lparr>succeeded := succeeded r + 1\<rparr>"] le
      show ?thesis by (simp add: count_ok_Cons)
    next
      case False
      with Returns a tr s1 Cons.IH[OF fa b, of "r\<lparr>failed := failed r + 1\<rparr>"] le
      show ?thesis by (simp add: count_ok_Cons Let_def)
    qed
  next
    case (Raises e)
    with a tr s1
      Cons.IH[OF fa b, of "r\<lparr>errors := errors r @ [(op, e)], failed := failed r + 1\<rparr>"] le
    show ?thesis by (simp add: count_ok_Cons Let_def)
  next
    case Blocks
    with nb show ?thesis by simp
  qed
qed

text \<open>
  Claim C7, as the code has it. A bulk call with \<open>fail_fast\<close> false (and the lock
  free) attempts every operation in order, none of them notifying. It returns the
  number of operations that returned success as \<open>succeeded\<close>, the number of all the
  others as \<open>failed\<close>, and one error entry, holding the operation, for each operation
  that raised; an operation that only returned failure has no error entry. One
  \<open>bulk_update\<close> event is emitted at the end when at least one operation succeeded,
  and none otherwise.
\<close>

theorem bulk_operation_attempts_all:
  assumes "\<not> lock_held s"
  shows "case attempt_all cfg now ops s of
           (trace, s1) \<Rightarrow>
             map fst trace = ops \<and>
             notified s1 = notified s \<and>
             bulk_operation cfg now ops False s =
               (Returns \<lparr>succeeded = length [x \<leftarrow> trace. snd x = Returns True],
                         failed = length ops - length [x \<leftarrow> trace. snd x = Returns True],
                         errors = error_entries trace\<rparr>,
                if length [x \<leftarrow> trace. snd x = Returns True] > 0
                then s1\<lparr>notified := notified s @
                        [([], BulkUpdateEvent (length [x \<leftarrow> trace. snd x = Returns True])
                                (length ops - length [x \<leftarrow> trace. snd x = Returns True]))]\<rparr>
                else s1)"
proof -
  obtain trace s1 where t: "attempt_all cfg now ops s = (trace, s1)"
    by (cases "attempt_all cfg now ops s")
  from attempt_all_trace[OF assms t]
  have m: "map fst trace = ops" and n: "notified s1 = notified s" by simp_all
  from m have len: "length trace = length ops" by (metis length_map)
  from bulk_loop_all[OF assms t, of "\<lparr>succeeded = 0, failed = 0, errors = []\<rparr>"]
  have "bulk_loop cfg now False ops \<lparr>succeeded = 0, failed = 0, errors = []\<rparr> s =
          (Returns \<lparr>succeeded = count_ok trace, failed = length ops - count_ok trace,
                    errors = error_entries trace\<rparr>, s1)"
    by (simp add: len)
  then show ?thesis using t m n
    by (simp add: bulk_operation_def notify_subscribers_def count_ok_def)
qed



theorem bulk_operation_attempts_all_witness:
  "\<not> lock_held init_state \<and>
   fst (bulk_operation default_config 0 spec_example_ops False init_state) =
     Returns \<lparr>succeeded = 2, failed = 1, errors = []\<rparr> \<and>
   notified (snd (bulk_operation default_config 0 spec_example_ops False init_state)) =
     [([], BulkUpdateEvent 2 1)]"
proof -
  have free: "\<not> lock_held init_state" by (simp add: init_state_def)
  from bulk_operation_attempts_all[OF free, where cfg = default_config and now = 0
      and ops = spec_example_ops] free
  show ?thesis by (simp add: cm_eval)
qed

text \<open>
  The end-to-end example returns no error entry for the failed \<open>delete\<close>, and a bulk
  call in which nothing succeeds emits no event.
\<close>

theorem bulk_operation_example_counterexample:
  "fst (bulk_operation default_config 0 spec_example_ops False init_state) =
     Returns \<lparr>succeeded = 2, failed = 1, errors = []\<rparr> \<and>
   bulk_operation default_config 0
       [\<lparr>op_operation = Some ''delete'', op_key = Some ''k3'', op_value = None,
         op_ttl = None, op_metadata = None\<rparr>] False init_state =
     (Returns \<lparr>succeeded = 0, failed = 1, errors = []\<rparr>, init_state) \<and>
   notified init_state = []"
  by (simp add: cm_eval)

section \<open>Properties of the file manager\<close>

subsection \<open>Record construction\<close>

lemma FileMetadata_without_path:
  "arg_path a = None \<Longrightarrow> FileMetadata now a = Inl ValidationError"
  by (simp add: FileMetadata_def split: option.splits)

lemma upload_metadata_args_path:
  "arg_path (upload_metadata_args fid effective_filename file file_size csum md tgs now ver) = None"
  by (simp add: upload_metadata_args_def)

lemma scan_metadata_args_path:
  "arg_path (scan_metadata_args cfg new_file_id relative_file_path c csum ctime mtime) = None"
  by (simp add: scan_metadata_args_def)

lemma store_new_file_raises:
  "store_new_file now temp_path new_id file file_size csum md tgs effective_filename s1 =
     (Inl ValidationError,
      s1\<lparr>files := fs_rename temp_path (get_file_path new_id None) (files s1)\<rparr>)"
  by (simp add: store_new_file_def Let_def
        FileMetadata_without_path[OF upload_metadata_args_path])

lemma store_new_version_raises:
  "get_file_versions (files s1) (file_id ex) = Inr versions \<Longrightarrow>
   store_new_version now temp_path file file_size csum md tgs effective_filename ex s1 =
     (Inl ValidationError,
      s1\<lparr>files := fs_rename temp_path
                      (get_file_path (file_id ex)
                         (Some (max_default (map version versions) 0 + 1)))
                      (files s1)\<rparr>)"
  by (simp add: store_new_version_def Let_def
        FileMetadata_without_path[OF upload_metadata_args_path])

lemma store_new_version_no_record:
  "fst (store_new_version now temp_path file file_size csum md tgs effective_filename ex s1)
     \<noteq> Inr m"
  by (simp add: store_new_version_def Let_def
        FileMetadata_without_path[OF upload_metadata_args_path] split: sum.splits)

lemma register_file_raises:
  "\<exists>e. register_file cfg ctime mtime new_file_id file_path s = (Inl e, s)"
  by (simp add: register_file_def FileMetadata_without_path[OF scan_metadata_args_path]
        split: option.splits sum.splits)

lemma scan_loop_registers_nothing:
  "scan_loop cfg ctime mtime uuid4 known ps n i s = (n, s)"
proof (induction ps arbitrary: i)
  case Nil
  then show ?case by simp
next
  case (Cons p ps)
  obtain e where "register_file cfg ctime mtime (uuid4 i) p s = (Inl e, s)"
    using register_file_raises by blast
  with Cons show ?case by simp
qed

lemma scan_registers_nothing:
  "scan_and_register_existing_files cfg ctime mtime uuid4 s = (Inr 0, s)"
  by (simp add: scan_and_register_existing_files_def scan_loop_registers_nothing)

lemma upload_try_record_is_existing:
  assumes "fst (upload_try cfg now new_id file md tgs overwrite effective_filename s) = Inr m"
  shows "\<not> overwrite \<and>
         (\<exists>written. find_file_by_checksum
            (AList.update (upload_temp_path new_id) (Bytes written) (files s))
            (sha256 cfg written) = Some m)"
proof -
  obtain r written where w: "write_chunks (max_file_size cfg) (chunks 8192 (uf_data file)) 0 []
      = (r, written)"
    by (cases "write_chunks (max_file_size cfg) (chunks 8192 (uf_data file)) 0 []")
  show ?thesis
  proof (cases r)
    case (Inl e)
    with assms w show ?thesis by (simp add: upload_try_def Let_def)
  next
    case (Inr file_size)
    let ?fs1 = "AList.update (upload_temp_path new_id) (Bytes written) (files s)"
    have c: "calculate_checksum cfg ?fs1 (upload_temp_path new_id) = Inr (sha256 cfg written)"
      by (simp add: calculate_checksum_def update_conv' content_bytes_def)
    from assms w Inr c show ?thesis
      by (auto simp: upload_try_def Let_def store_new_file_raises store_new_version_no_record
               split: if_splits)
  qed
qed

lemma upload_file_record_from_try:
  "fst (upload_file cfg now new_id file md tgs overwrite target_filename s) = Inr m \<Longrightarrow>
   \<exists>name. fst (upload_try cfg now new_id file md tgs overwrite (as_posix name) s) = Inr m"
proof -
  assume a: "fst (upload_file cfg now new_id file md tgs overwrite target_filename s) = Inr m"
  show ?thesis
  proof (cases "requested_name target_filename file")
    case None
    with a show ?thesis by (simp add: upload_file_def)
  next
    case (Some name)
    obtain r s' where t: "upload_try cfg now new_id file md tgs overwrite (as_posix name) s = (r, s')"
      by (cases "upload_try cfg now new_id file md tgs overwrite (as_posix name) s")
    from a Some t have "r = Inr m"
      by (cases r) (simp_all add: upload_file_def Let_def split: if_splits)
    with t have "fst (upload_try cfg now new_id file md tgs overwrite (as_posix name) s) = Inr m"
      by simp
    then show ?thesis by blast
  qed
qed

text \<open>
  Claim C6, as the code has it. No call site passes \<open>path\<close>, so wherever
  \<open>upload_file\<close> constructs a record, for a new file or (once the versions are
  listed) for a new version, it raises a validation error; the only record
  \<open>upload_file\<close> ever returns is the existing one that the checksum lookup found,
  with \<open>overwrite\<close> false. \<open>scan_and_register_existing_files\<close> catches the error of
  each file: it raises nothing, registers nothing and returns \<open>0\<close>.
\<close>

theorem record_construction_raises:
  "fst (store_new_file now temp_path new_id file file_size csum md tgs effective_filename s1)
     = Inl ValidationError \<and>
   (\<forall>versions. get_file_versions (files s1) (file_id ex) = Inr versions \<longrightarrow>
      fst (store_new_version now temp_path file file_size csum md tgs effective_filename ex s1)
        = Inl ValidationError) \<and>
   (\<forall>m. fst (upload_file cfg now new_id file md tgs overwrite target_filename s) = Inr m \<longrightarrow>
      \<not> overwrite \<and>
      (\<exists>written. find_file_by_checksum
         (AList.update (upload_temp_path new_id) (Bytes written) (files s))
         (sha256 cfg written) = Some m)) \<and>
   scan_and_register_existing_files cfg ctime mtime uuid4 s = (Inr 0, s)"
proof (intro conjI allI impI)
  show "fst (store_new_file now temp_path new_id file file_size csum md tgs effective_filename s1)
     = Inl ValidationError"
    by (simp add: store_new_file_raises)
next
  fix versions
  assume "get_file_versions (files s1) (file_id ex) = Inr versions"
  then show "fst (store_new_version now temp_path file file_size csum md tgs effective_filename ex s1)
        = Inl ValidationError"
    by (simp add: store_new_version_raises)
next
  fix m
  assume a: "fst (upload_file cfg now new_id file md tgs overwrite target_filename s) = Inr m"
  from upload_file_record_from_try[OF a] obtain name where
    "fst (upload_try cfg now new_id file md tgs overwrite (as_posix name) s) = Inr m"
    by blast
  from upload_try_record_is_existing[OF this]
  show "\<not> overwrite" and "\<exists>written. find_file_by_checksum
         (AList.update (upload_temp_path new_id) (Bytes written) (files s))
         (sha256 cfg written) = Some m"
    by blast+
next
  show "scan_and_register_existing_files cfg ctime mtime uuid4 s = (Inr 0, s)"
    by (rule scan_registers_nothing)
qed

theorem record_construction_raises_witness:
  "get_file_versions (files example_store) (file_id example_record) = Inr [] \<and>
   fst (store_new_version 5 (upload_temp_path ''id2'') (example_upload ''xyz'') 3 ''sha-xyz''
          None None ''docs/report.txt'' example_record example_store) = Inl ValidationError \<and>
   fst (upload_file example_config 5 ''id2'' (example_upload ''abc'') None None False None
          example_store) = Inr example_record \<and>
   \<not> False"
proof -
  have v: "get_file_versions (files example_store) (file_id example_record) = Inr []"
    by code_simp
  have u: "fst (upload_file example_config 5 ''id2'' (example_upload ''abc'') None None False None
          example_store) = Inr example_record"
    by code_simp
  from record_construction_raises[where ?s1.0 = example_store and ex = example_record
      and now = 5 and temp_path = "upload_temp_path ''id2''" and ?file = "example_upload ''xyz''"
      and file_size = 3 and csum = "''sha-xyz''" and md = None and tgs = None
      and effective_filename = "''docs/report.txt''"] v u
  show ?thesis by simp
qed

text \<open>
  A file without a record reaches the construction in the scan, which fails; the
  scan itself returns \<open>0\<close>.
\<close>

theorem scan_swallows_validation_error_counterexample:
  "\<not> is_known (files unregistered_store) (known_file_ids (files unregistered_store)) ''notes.txt'' \<and>
   register_file example_config 0 0 ''id1'' [''notes.txt''] unregistered_store
     = (Inl ValidationError, unregistered_store) \<and>
   scan_and_register_existing_files example_config 0 0 (\<lambda>i. ''id1'') unregistered_store
     = (Inr 0, unregistered_store)"
  by code_simp

subsection \<open>Reading metadata\<close>

lemma get_file_metadata_unknown:
  "map_of fs (get_metadata_path fid ver) = None \<Longrightarrow>
   get_file_metadata fs fid ver = Inl FileNotFoundError"
  by (simp add: get_file_metadata_def)

text \<open>
  Claim C4. A record of version \<open>1\<close> belongs under the versioned name, the only
  name \<open>_get_metadata_path\<close> gives for it, and the read without a version looks
  under the unversioned name: the identity has a stored record, which the read
  with \<open>version = 1\<close> returns, and the read with \<open>version = None\<close> fails with
  not-found. A record stored under the unversioned name is returned as it is:
  where it is marked deleted and version \<open>1\<close> is not, the deleted one is returned.
\<close>

theorem get_file_metadata_misses_versioned_record:
  "get_metadata_path (file_id example_record) (Some (version example_record))
     = [''metadata'', ''f1_v1.json''] \<and>
   get_file_metadata (files versioned_only_store) ''f1'' (Some 1) = Inr example_record \<and>
   get_file_metadata (files versioned_only_store) ''f1'' None = Inl FileNotFoundError \<and>
   get_file_metadata (files deleted_current_store) ''f1'' (Some 1) = Inr example_record \<and>
   get_file_metadata (files deleted_current_store) ''f1'' None
     = Inr (example_record\<lparr>version := 2, is_deleted := True\<rparr>)"
  by code_simp

theorem get_file_metadata_misses_versioned_record_witness:
  "version example_record \<noteq> 0 \<and>
   get_file_metadata (files versioned_only_store) ''f1'' (Some 1) = Inr example_record \<and>
   get_file_metadata (files versioned_only_store) ''f1'' None = Inl FileNotFoundError"
proof -
  have "version example_record \<noteq> 0" by (simp add: example_record_def)
  with get_file_metadata_misses_versioned_record show ?thesis by simp
qed

subsection \<open>Writing metadata\<close>

lemma save_metadata_steps_shape:
  "save_metadata_steps md = [OpenTruncate (get_metadata_path (file_id md) (Some (version md)))]"
  by (simp add: save_metadata_steps_def json_indent_def Let_def)

lemma save_metadata_result:
  "save_metadata fs md =
     (Inl TypeError,
      AList.update (get_metadata_path (file_id md) (Some (version md))) (Bytes []) fs)"
  by (simp add: save_metadata_def json_indent_def Let_def)

text \<open>
  Claim C5, as the code has it. A write of a metadata record begins by opening the
  record's final location itself for writing, which leaves an empty file there;
  the file operations of the write are the ones \<open>save_metadata_steps\<close> lists, none
  of them is a rename, and no path but the final location changes.
\<close>

theorem save_metadata_writes_in_place:
  "save_metadata_steps md \<noteq> [] \<and>
   hd (save_metadata_steps md)
     = OpenTruncate (get_metadata_path (file_id md) (Some (version md))) \<and>
   \<not> list_ex is_rename (save_metadata_steps md) \<and>
   snd (save_metadata fs md) = fold exec_step (save_metadata_steps md) fs \<and>
   map_of (after_steps 1 (save_metadata_steps md) fs)
      (get_metadata_path (file_id md) (Some (version md))) = Some (Bytes []) \<and>
   (\<forall>p. p \<noteq> get_metadata_path (file_id md) (Some (version md)) \<longrightarrow>
        map_of (snd (save_metadata fs md)) p = map_of fs p)"
  by (simp add: save_metadata_steps_shape save_metadata_result after_steps_def is_rename_def
        update_conv')

theorem save_metadata_writes_in_place_witness:
  "[''metadata'', ''f2.json''] \<noteq> get_metadata_path (file_id example_record) (Some (version example_record)) \<and>
   map_of (snd (save_metadata (files example_store) example_record)) [''metadata'', ''f2.json'']
     = map_of (files example_store) [''metadata'', ''f2.json'']"
proof -
  have a: "[''metadata'', ''f2.json''] \<noteq>
           get_metadata_path (file_id example_record) (Some (version example_record))"
    by code_simp
  from save_metadata_writes_in_place[of example_record "files example_store"] a
  show ?thesis by blast
qed

text \<open>
  Rewriting a stored record: once the final location is opened, a reader finds a
  file there that does not parse, and no step of the write is a rename.
\<close>

theorem save_metadata_partial_write_counterexample:
  "get_file_metadata (files versioned_only_store) ''f1'' (Some 1) = Inr example_record \<and>
   get_file_metadata
     (after_steps 1 (save_metadata_steps (example_record\<lparr>fm_size := 4\<rparr>))
        (files versioned_only_store)) ''f1'' (Some 1) = Inl ValidationError \<and>
   \<not> list_ex is_rename (save_metadata_steps (example_record\<lparr>fm_size := 4\<rparr>))"
  by code_simp

subsection \<open>The copy loop\<close>

lemma write_chunks_within_limit:
  "0 < n \<Longrightarrow> file_size + int (length xs) \<le> mx \<Longrightarrow>
   write_chunks mx (chunks n xs) file_size written =
     (Inr (file_size + int (length xs)), written @ xs)"
proof (induction n xs arbitrary: file_size written rule: chunks.induct)
  case (1 n xs)
  show ?case
  proof (cases "xs = []")
    case True
    then show ?thesis by (simp add: chunks.simps)
  next
    case False
    have le: "file_size + int (length (take n xs)) \<le> mx"
      using "1.prems"(2) by simp
    have "file_size + int (length (take n xs)) + int (length (drop n xs))
            = file_size + int (length xs)"
      by simp
    with "1.prems" have "file_size + int (length (take n xs)) + int (length (drop n xs)) \<le> mx"
      by simp
    from "1.IH"[OF _ "1.prems"(1) this, of "written @ take n xs"] False "1.prems"(1)
    have ih: "write_chunks mx (chunks n (drop n xs)) (file_size + int (length (take n xs)))
                (written @ take n xs) =
              (Inr (file_size + int (length (take n xs)) + int (length (drop n xs))),
               (written @ take n xs) @ drop n xs)"
      by simp
    have c: "chunks n xs = take n xs # chunks n (drop n xs)"
      using False "1.prems"(1) by (subst chunks.simps) simp
    have tl: "int (length (take n xs)) + int (length (drop n xs)) = int (length xs)"
      by (metis append_take_drop_id length_append of_nat_add)
    show ?thesis
      using ih le tl by (simp add: c Let_def del: length_take length_drop)
  qed
qed

subsection \<open>The temporary file and the lookups\<close>

lemma delete_update_fresh:
  "\<not> has_key fs k \<Longrightarrow> AList.delete k (AList.update k v fs) = fs"
  by (induction fs) (auto simp: has_key_def)

lemma keys_update:
  "map fst (AList.update k v fs) = (if has_key fs k then map fst fs else map fst fs @ [k])"
  by (simp add: update_keys has_key_def map_of_eq_None_iff)

lemma filter_keys_update:
  "\<not> P k \<Longrightarrow> filter P (map fst (AList.update k v fs)) = filter P (map fst fs)"
  by (simp add: keys_update)

lemma temp_not_metadata: "\<not> under_dir [''metadata''] (upload_temp_path fid)"
  by (simp add: under_dir_def upload_temp_path_def)

lemma temp_not_metadata_path: "get_metadata_path fid ver \<noteq> upload_temp_path new_id"
  by (simp add: get_metadata_path_def upload_temp_path_def)

lemma iter_metadata_files_temp:
  "iter_metadata_files (AList.update (upload_temp_path new_id) c fs) = iter_metadata_files fs"
  by (simp add: iter_metadata_files_def filter_keys_update temp_not_metadata)

lemma get_file_metadata_temp:
  "get_file_metadata (AList.update (upload_temp_path new_id) c fs) fid ver
     = get_file_metadata fs fid ver"
  by (simp add: get_file_metadata_def update_conv' temp_not_metadata_path)

lemma find_checksum_in_temp:
  "find_checksum_in (AList.update (upload_temp_path new_id) c fs) csum ps
     = find_checksum_in fs csum ps"
  by (induction ps) (auto simp: get_file_metadata_temp split: sum.splits)

lemma find_file_by_checksum_temp:
  "find_file_by_checksum (AList.update (upload_temp_path new_id) c fs) csum
     = find_file_by_checksum fs csum"
  by (simp add: find_file_by_checksum_def iter_metadata_files_temp find_checksum_in_temp)

lemma iter_metadata_files_under:
  "p \<in> set (iter_metadata_files fs) \<Longrightarrow> under_dir [''metadata''] p"
  by (auto simp: iter_metadata_files_def)

lemma read_live_metadata_temp:
  "under_dir [''metadata''] p \<Longrightarrow>
   read_live_metadata (AList.update (upload_temp_path new_id) c fs) p = read_live_metadata fs p"
  using temp_not_metadata[of new_id]
  by (auto simp: read_live_metadata_def update_conv')

lemma map_filter_cong_set:
  "(\<And>x. x \<in> set xs \<Longrightarrow> f x = g x) \<Longrightarrow> List.map_filter f xs = List.map_filter g xs"
  by (induction xs) (auto split: option.splits)

lemma list_files_temp:
  "list_files (AList.update (upload_temp_path new_id) c fs) pre ext tgs skip limit
     = list_files fs pre ext tgs skip limit"
proof -
  have "List.map_filter (read_live_metadata (AList.update (upload_temp_path new_id) c fs))
          (iter_metadata_files fs)
        = List.map_filter (read_live_metadata fs) (iter_metadata_files fs)"
    by (rule map_filter_cong_set) (simp add: read_live_metadata_temp iter_metadata_files_under)
  then show ?thesis by (simp add: list_files_def iter_metadata_files_temp)
qed

lemma get_file_metadata_by_path_temp:
  "get_file_metadata_by_path (AList.update (upload_temp_path new_id) c fs) rel
     = get_file_metadata_by_path fs rel"
  by (simp add: get_file_metadata_by_path_def list_files_temp)




subsection \<open>The checksum lookup\<close>

lemma find_checksum_in_sound:
  "find_checksum_in fs csum ps = Some m \<Longrightarrow>
   checksum m = csum \<and> (\<exists>p \<in> set ps. get_file_metadata fs (path_stem (basename p)) None = Inr m)"
  by (induction ps) (auto split: sum.splits if_splits)

lemma find_checksum_in_complete:
  "p \<in> set ps \<Longrightarrow> get_file_metadata fs (path_stem (basename p)) None = Inr m \<Longrightarrow>
   checksum m = csum \<Longrightarrow> \<exists>m'. find_checksum_in fs csum ps = Some m'"
  by (induction ps) (auto split: sum.splits)


subsection \<open>Upload\<close>



lemma upload_try_unfold:
  assumes "int (length (uf_data file)) \<le> max_file_size cfg"
    and "\<not> has_key (files s) (upload_temp_path new_id)"
  shows "upload_try cfg now new_id file md tgs overwrite effective_filename s =
     (let csum = sha256 cfg (uf_data file);
          s1 = s\<lparr>files := AList.update (upload_temp_path new_id) (Bytes (uf_data file)) (files s)\<rparr>;
          existing_file = find_file_by_checksum (files s) csum
      in if existing_file \<noteq> None \<and> \<not> overwrite then (Inr (the existing_file), s)
         else
           let existing_file_by_name = get_file_metadata_by_path (files s) effective_filename
           in if existing_file_by_name \<noteq> None \<and> \<not> overwrite
              then store_new_version now (upload_temp_path new_id) file
                     (int (length (uf_data file))) csum md tgs effective_filename
                     (the existing_file_by_name) s1
              else store_new_file now (upload_temp_path new_id) new_id file
                     (int (length (uf_data file))) csum md tgs effective_filename s1)"
proof -
  have w: "write_chunks (max_file_size cfg) (chunks 8192 (uf_data file)) 0 []
             = (Inr (int (length (uf_data file))), uf_data file)"
    using write_chunks_within_limit[of 8192 0 "uf_data file" "max_file_size cfg" "[]"] assms(1)
    by simp
  have c: "calculate_checksum cfg
             (AList.update (upload_temp_path new_id) (Bytes (uf_data file)) (files s))
             (upload_temp_path new_id) = Inr (sha256 cfg (uf_data file))"
    by (simp add: calculate_checksum_def update_conv' content_bytes_def)
  show ?thesis
    using assms(2)
    by (simp add: upload_try_def Let_def w c find_file_by_checksum_temp
          get_file_metadata_by_path_temp delete_update_fresh)
qed

lemma upload_file_unfold:
  assumes "requested_name target_filename file = Some name"
    and "validate_extension cfg (as_posix name)"
  shows "upload_file cfg now new_id file md tgs overwrite target_filename s =
     (case upload_try cfg now new_id file md tgs overwrite (as_posix name) s of
        (Inr r, s') \<Rightarrow> (Inr r, s')
      | (Inl e, s') \<Rightarrow>
          (Inl e,
           if has_key (files s') (upload_temp_path new_id)
           then s'\<lparr>files := AList.delete (upload_temp_path new_id) (files s')\<rparr>
           else s'))"
proof -
  from assms(2) have "as_posix name \<noteq> []"
    by (auto simp: validate_extension_def)
  with assms show ?thesis by (simp add: upload_file_def Let_def)
qed

text \<open>
  Claim C2, as the code has it. An upload with an accepted name and size, whose
  bytes have the checksum of a record that the checksum lookup reads, and with
  \<open>overwrite\<close> false, returns the record the lookup finds, which has that checksum,
  and leaves the whole store as it was before the call: the temporary file is gone,
  no metadata is touched, no event is published, nothing is raised. With \<open>overwrite\<close>
  true the lookup's result is not used: the upload returns no existing record.
\<close>

theorem upload_returns_existing_when_not_overwrite:
  assumes "requested_name target_filename file = Some name"
    and "validate_extension cfg (as_posix name)"
    and "int (length (uf_data file)) \<le> max_file_size cfg"
    and "\<not> has_key (files s) (upload_temp_path new_id)"
    and "p \<in> set (iter_metadata_files (files s))"
    and "get_file_metadata (files s) (path_stem (basename p)) None = Inr m"
    and "checksum m = sha256 cfg (uf_data file)"
  shows "(\<exists>existing.
            upload_file cfg now new_id file md tgs False target_filename s = (Inr existing, s) \<and>
            checksum existing = sha256 cfg (uf_data file) \<and>
            find_file_by_checksum (files s) (sha256 cfg (uf_data file)) = Some existing) \<and>
         (\<forall>r. fst (upload_file cfg now new_id file md tgs True target_filename s) \<noteq> Inr r)"
proof
  from find_checksum_in_complete[OF assms(5,6,7)] obtain existing where
    f: "find_file_by_checksum (files s) (sha256 cfg (uf_data file)) = Some existing"
    by (auto simp: find_file_by_checksum_def)
  from find_checksum_in_sound[of "files s" "sha256 cfg (uf_data file)" _ existing] f
  have cs: "checksum existing = sha256 cfg (uf_data file)"
    by (simp add: find_file_by_checksum_def)
  have "upload_file cfg now new_id file md tgs False target_filename s = (Inr existing, s)"
    by (simp add: upload_file_unfold[OF assms(1,2)] upload_try_unfold[OF assms(3,4)] f Let_def)
  with cs f show "\<exists>existing.
            upload_file cfg now new_id file md tgs False target_filename s = (Inr existing, s) \<and>
            checksum existing = sha256 cfg (uf_data file) \<and>
            find_file_by_checksum (files s) (sha256 cfg (uf_data file)) = Some existing"
    by blast
next
  show "\<forall>r. fst (upload_file cfg now new_id file md tgs True target_filename s) \<noteq> Inr r"
  proof (intro allI notI)
    fix r
    assume "fst (upload_file cfg now new_id file md tgs True target_filename s) = Inr r"
    from upload_file_record_from_try[OF this] obtain n where
      "fst (upload_try cfg now new_id file md tgs True (as_posix n) s) = Inr r" by blast
    from upload_try_record_is_existing[OF this] show False by simp
  qed
qed

theorem upload_returns_existing_when_not_overwrite_witness:
  "requested_name None (example_upload ''abc'') = Some ''docs/report.txt'' \<and>
   validate_extension example_config (as_posix ''docs/report.txt'') \<and>
   int (length (uf_data (example_upload ''abc''))) \<le> max_file_size example_config \<and>
   \<not> has_key (files example_store) (upload_temp_path ''id2'') \<and>
   [''metadata'', ''f1.json''] \<in> set (iter_metadata_files (files example_store)) \<and>
   get_file_metadata (files example_store) (path_stem (basename [''metadata'', ''f1.json''])) None
     = Inr example_record \<and>
   checksum example_record = sha256 example_config (uf_data (example_upload ''abc'')) \<and>
   upload_file example_config 5 ''id2'' (example_upload ''abc'') None None False None example_store
     = (Inr example_record, example_store)"
proof -
  have a: "requested_name None (example_upload ''abc'') = Some ''docs/report.txt''" by code_simp
  have b: "validate_extension example_config (as_posix ''docs/report.txt'')" by code_simp
  have c: "int (length (uf_data (example_upload ''abc''))) \<le> max_file_size example_config"
    by code_simp
  have d: "\<not> has_key (files example_store) (upload_temp_path ''id2'')" by code_simp
  have e: "[''metadata'', ''f1.json''] \<in> set (iter_metadata_files (files example_store))"
    by code_simp
  have f: "get_file_metadata (files example_store)
             (path_stem (basename [''metadata'', ''f1.json''])) None = Inr example_record"
    by code_simp
  have g: "checksum example_record = sha256 example_config (uf_data (example_upload ''abc''))"
    by code_simp
  have h: "find_file_by_checksum (files example_store)
             (sha256 example_config (uf_data (example_upload ''abc''))) = Some example_record"
    by code_simp
  from upload_returns_existing_when_not_overwrite[OF a b c d e f g, of 5 None None]
  obtain existing where
    u: "upload_file example_config 5 ''id2'' (example_upload ''abc'') None None False None
          example_store = (Inr existing, example_store)"
    and k: "find_file_by_checksum (files example_store)
              (sha256 example_config (uf_data (example_upload ''abc''))) = Some existing"
    by blast
  from k h have "existing = example_record" by simp
  with u have "upload_file example_config 5 ''id2'' (example_upload ''abc'') None None False None
          example_store = (Inr example_record, example_store)"
    by simp
  with a b c d e f g show ?thesis by (intro conjI)
qed

text \<open>
  With \<open>overwrite\<close> true and the bytes of the stored record, the upload does not
  return that record: it raises, after the bytes have been stored under the new
  identifier.
\<close>

theorem upload_overwrite_bypasses_dedup_counterexample:
  "find_file_by_checksum (files example_store) (sha256 example_config ''abc'')
     = Some example_record \<and>
   fst (upload_file example_config 5 ''id2'' (example_upload ''abc'') None None True None
          example_store) = Inl ValidationError \<and>
   map_of (files (snd (upload_file example_config 5 ''id2'' (example_upload ''abc'') None None
          True None example_store))) [''id2''] = Some (Bytes ''abc'') \<and>
   map_of (files example_store) [''id2''] = None"
  by code_simp




end
